theory Spec2Isabelle
  imports Complex_Main "HOL-Library.Multiset" "HOL-Library.Char_ord" "HOL-Library.List_Lexorder"
begin

section \<open>Chunk sizes\<close>

subsection \<open>The uploader's advisor (jjdffg.py, lines 33-85)\<close>

definition DEFAULT_STREAMS :: int where
  "DEFAULT_STREAMS = 5"

definition DEFAULT_CHUNK_SIZE :: int where
  "DEFAULT_CHUNK_SIZE = 4 * 1024 * 1024"

definition MIN_CHUNK_SIZE :: int where
  "MIN_CHUNK_SIZE = 1 * 1024 * 1024"

definition MAX_CHUNK_SIZE :: int where
  "MAX_CHUNK_SIZE = 64 * 1024 * 1024"

text \<open>
  Python's \<^verbatim>\<open>int(x)\<close> on a float truncates towards zero.
\<close>

definition py_int :: "rat \<Rightarrow> int" where
  "py_int x = (if 0 \<le> x then \<lfloor>x\<rfloor> else \<lceil>x\<rceil>)"

text \<open>
  Lines 76 and 79: the clamp and the rounding down to whole mebibytes, on the integer that
  \<^verbatim>\<open>int(mem_per_stream * 0.25)\<close> produced.
\<close>

definition clamp_and_round :: "int \<Rightarrow> int" where
  "clamp_and_round chunk_size =
     (let chunk_size = max MIN_CHUNK_SIZE (min MAX_CHUNK_SIZE chunk_size)
      in (chunk_size div (1024 * 1024)) * (1024 * 1024))"

text \<open>
  \<^verbatim>\<open>calculate_optimal_chunk_size(streams)\<close>. The reading of \<^verbatim>\<open>psutil.virtual_memory()\<close>
  is the argument \<open>mem\<close>: \<open>None\<close> when the call raises, otherwise the pair
  \<open>(total, available)\<close>. Every exception inside the \<^verbatim>\<open>try\<close> block ends in the
  \<^verbatim>\<open>except\<close> branch, which returns \<open>DEFAULT_CHUNK_SIZE\<close>; in the model these are
  the failed reading and the division by \<open>streams = 0\<close>.

  The source computes lines 62-73 in double precision. The model computes the same
  expressions in exact rational arithmetic (\<open>0.1\<close>, \<open>0.8\<close> and \<open>0.25\<close> as \<open>1/10\<close>,
  \<open>8/10\<close> and \<open>1/4\<close>); the integer handed to the clamp may therefore differ from the
  float computation in its last units, and an integer too large for a float (which raises
  \<^verbatim>\<open>OverflowError\<close> and so returns the default) is not distinguished. Nothing proved
  below depends on that integer: \<open>clamp_and_round\<close> is bounded on every argument.
\<close>

definition calculate_optimal_chunk_size :: "(int \<times> int) option \<Rightarrow> int \<Rightarrow> int" where
  "calculate_optimal_chunk_size mem streams =
     (case mem of
        None \<Rightarrow> DEFAULT_CHUNK_SIZE
      | Some (total_mem, available_mem) \<Rightarrow>
          (let usable_mem =
                 (if rat_of_int available_mem < rat_of_int total_mem * (1 / 10)
                  then rat_of_int total_mem * (1 / 10)
                  else rat_of_int available_mem);
               usable_mem = usable_mem * (8 / 10)
           in if streams = 0 then DEFAULT_CHUNK_SIZE
              else (let mem_per_stream = usable_mem / rat_of_int streams;
                        chunk_size = py_int (mem_per_stream * (1 / 4))
                    in clamp_and_round chunk_size)))"

subsection \<open>The archive builder's chunk sizes (script2.py, lines 170-213)\<close>

text \<open>
  \<^verbatim>\<open>get_recommended_chunk_size()\<close> reads the available memory with
  \<^verbatim>\<open>get_system_memory()\<close>; the reading is the argument. \<^verbatim>\<open>//\<close> is floor division,
  as \<open>div\<close> on \<open>int\<close> is.
\<close>

definition get_recommended_chunk_size :: "int \<Rightarrow> int" where
  "get_recommended_chunk_size available_memory =
     min (max (available_memory div 100) 8192) (64 * 1024 * 1024)"

definition get_optimal_chunk_size :: "int \<Rightarrow> int \<Rightarrow> int" where
  "get_optimal_chunk_size file_size available_memory =
     (let memory_based = min (max (available_memory div 100) 8192) (64 * 1024 * 1024)
      in if file_size > 1 * 1024 * 1024 * 1024 then max memory_based (16 * 1024 * 1024)
         else if file_size > 100 * 1024 * 1024 then max memory_based (4 * 1024 * 1024)
         else memory_based)"

section \<open>Strings\<close>

text \<open>
  Strings are byte lists. \<^verbatim>\<open>str.lower()\<close> is modelled on the ASCII letters, which is
  what the two literals the sources look for (\<^verbatim>\<open>checksum\<close> and \<^verbatim>\<open>.zip\<close>) consist of.
\<close>

definition lower_char :: "char \<Rightarrow> char" where
  "lower_char c =
     (if 65 \<le> (of_char c :: nat) \<and> (of_char c :: nat) \<le> 90
      then char_of ((of_char c :: nat) + 32) else c)"

definition lower :: "string \<Rightarrow> string" where
  "lower s = map lower_char s"

definition startswith :: "string \<Rightarrow> string \<Rightarrow> bool" where
  "startswith s p = (take (length p) s = p)"

definition endswith :: "string \<Rightarrow> string \<Rightarrow> bool" where
  "endswith s p = (length p \<le> length s \<and> drop (length s - length p) s = p)"

text \<open>\<^verbatim>\<open>needle in s\<close>\<close>

fun py_in :: "string \<Rightarrow> string \<Rightarrow> bool" where
  "py_in needle [] = (needle = [])"
| "py_in needle (c # cs) = (startswith (c # cs) needle \<or> py_in needle cs)"

definition lstrip :: "char \<Rightarrow> string \<Rightarrow> string" where
  "lstrip ch s = dropWhile (\<lambda>c. c = ch) s"

definition rstrip :: "char \<Rightarrow> string \<Rightarrow> string" where
  "rstrip ch s = rev (dropWhile (\<lambda>c. c = ch) (rev s))"

text \<open>\<^verbatim>\<open>Path.name\<close>: the part after the last slash.\<close>

definition basename :: "string \<Rightarrow> string" where
  "basename p = rev (takeWhile (\<lambda>c. c \<noteq> CHR ''/'') (rev p))"

section \<open>The uploader (jjdffg.py)\<close>

subsection \<open>The world the uploader acts on\<close>

definition MAX_RETRIES :: nat where
  "MAX_RETRIES = 3"

definition RETRY_BACKOFF_FACTOR :: rat where
  "RETRY_BACKOFF_FACTOR = 1"

definition DEFAULT_CONCURRENT_UPLOADS :: int where
  "DEFAULT_CONCURRENT_UPLOADS = 3"

definition DEFAULT_LARGE_FILE_THRESHOLD :: int where
  "DEFAULT_LARGE_FILE_THRESHOLD = 100 * 1024 * 1024"

text \<open>
  One \<^verbatim>\<open>session.put\<close>: a response with its status code and body, or an exception
  (connection error, timeout, an error while the generator reads the file).
\<close>

datatype put_result = PutResponse int string | PutRaises

text \<open>
  The \<^verbatim>\<open>Content-Length\<close> header of the answer to \<^verbatim>\<open>session.head\<close>: absent, present
  but not an integer literal (\<^verbatim>\<open>int(...)\<close> raises \<^verbatim>\<open>ValueError\<close>), or a number.
\<close>

datatype content_length = NoContentLength | BadContentLength | ContentLength int

datatype head_result = HeadResponse int content_length | HeadRaises

text \<open>
  A path of the local file system is a directory or a regular file with its size and
  whether it can be read to the end (\<^verbatim>\<open>calculate_md5\<close> raises otherwise). The file
  system does not change during a run.
\<close>

datatype fs_node = Dir | File int bool

text \<open>
  The collaborators: the file system, the server's answer to the PUT of a URL (by the
  number of the attempt and by whether the request carries \<^verbatim>\<open>X-Checksum-Deploy\<close>), its
  answer to the HEAD of a URL, and the order in which the futures of the worker pool
  complete (\<^verbatim>\<open>concurrent.futures.as_completed\<close>).
\<close>

record world =
  w_fs :: "string \<Rightarrow> fs_node option"
  w_put :: "string \<Rightarrow> nat \<Rightarrow> bool \<Rightarrow> put_result"
  w_head :: "string \<Rightarrow> head_result"
  w_as_completed :: "(string \<times> string) list \<Rightarrow> (string \<times> string) list"

record uploader =
  base_url :: string
  repo_name :: string
  max_workers :: int
  large_threshold :: int
  upload_chunk_size :: int

text \<open>
  \<^verbatim>\<open>JFrogUploader.__init__\<close>; \<open>mem\<close> is the memory reading the advisor takes when no
  chunk size is given.
\<close>

definition JFrogUploader :: "(int \<times> int) option \<Rightarrow> string \<Rightarrow> string \<Rightarrow> int \<Rightarrow> int \<Rightarrow>
    int option \<Rightarrow> uploader" where
  "JFrogUploader mem url repo workers threshold chunk =
     \<lparr>base_url = rstrip CHR ''/'' url, repo_name = repo, max_workers = workers,
      large_threshold = threshold,
      upload_chunk_size = (case chunk of
                      None \<Rightarrow> calculate_optimal_chunk_size mem (max workers DEFAULT_STREAMS)
                    | Some c \<Rightarrow> c)\<rparr>"

subsection \<open>Validation (lines 251-283)\<close>

text \<open>
  \<^verbatim>\<open>_validate_upload(url, file_path)\<close>, on the answer to the HEAD request and the local
  size. Every exception ends in the \<^verbatim>\<open>except\<close> branch, which returns \<^verbatim>\<open>False\<close>.
\<close>

definition validate_upload :: "head_result \<Rightarrow> int \<Rightarrow> bool" where
  "validate_upload response local_file_size =
     (case response of
        HeadRaises \<Rightarrow> False
      | HeadResponse status_code cl \<Rightarrow>
          if status_code \<noteq> 200 then False
          else (case cl of
                  ContentLength server_file_size \<Rightarrow>
                    if server_file_size = local_file_size then True else False
                | BadContentLength \<Rightarrow> False
                | NoContentLength \<Rightarrow> True))"

subsection \<open>The retrying transfer (lines 188-249)\<close>

datatype net_event = PUT string nat bool | HEAD string

record transfer =
  tr_result :: bool
  tr_attempts :: nat
  tr_sleeps :: "rat list"
  tr_net :: "net_event list"

text \<open>
  The loop \<^verbatim>\<open>for retry in range(MAX_RETRIES)\<close>: \<open>n\<close> iterations are left, \<open>retry\<close>
  is the loop variable, \<open>deploy\<close> says whether \<^verbatim>\<open>headers\<close> holds
  \<^verbatim>\<open>X-Checksum-Deploy\<close>, \<open>acc\<close> is what has happened so far. A status of 200 or 201
  returns the verdict of the validation; any other status and any exception sleep
  \<^verbatim>\<open>RETRY_BACKOFF_FACTOR * (2 ** retry)\<close> and go on; after the last iteration the
  function returns \<^verbatim>\<open>False\<close>.
\<close>

fun upload_loop :: "world \<Rightarrow> string \<Rightarrow> int \<Rightarrow> nat \<Rightarrow> nat \<Rightarrow> bool \<Rightarrow> transfer \<Rightarrow> transfer" where
  "upload_loop w url file_size 0 retry deploy acc = acc\<lparr>tr_result := False\<rparr>"
| "upload_loop w url file_size (Suc n) retry deploy acc =
     (let acc = acc\<lparr>tr_attempts := tr_attempts acc + 1,
                    tr_net := tr_net acc @ [PUT url retry deploy]\<rparr>;
          backoff_time = RETRY_BACKOFF_FACTOR * (2 ^ retry)
      in case w_put w url retry deploy of
           PutResponse status_code text \<Rightarrow>
             if status_code = 200 \<or> status_code = 201
             then acc\<lparr>tr_result := validate_upload (w_head w url) file_size,
                      tr_net := tr_net acc @ [HEAD url]\<rparr>
             else upload_loop w url file_size n (retry + 1)
                    (if py_in ''checksum'' (lower text) then True else deploy)
                    (acc\<lparr>tr_sleeps := tr_sleeps acc @ [backoff_time]\<rparr>)
         | PutRaises \<Rightarrow>
             upload_loop w url file_size n (retry + 1) deploy
               (acc\<lparr>tr_sleeps := tr_sleeps acc @ [backoff_time]\<rparr>))"

definition upload_with_streaming :: "world \<Rightarrow> string \<Rightarrow> int \<Rightarrow> transfer" where
  "upload_with_streaming w url file_size =
     upload_loop w url file_size MAX_RETRIES 0 False
       \<lparr>tr_result = False, tr_attempts = 0, tr_sleeps = [], tr_net = []\<rparr>"

subsection \<open>One file (lines 145-186)\<close>

record file_upload =
  fu_result :: bool
  fu_under_lock :: bool
  fu_transfer :: "transfer option"

definition target_url :: "uploader \<Rightarrow> string \<Rightarrow> string" where
  "target_url u target_path =
     base_url u @ ''/artifactory/'' @ repo_name u @ ''/'' @ lstrip CHR ''/'' target_path"

text \<open>
  \<^verbatim>\<open>upload_file(file_path, target_path)\<close>. A missing path returns \<^verbatim>\<open>False\<close> at once.
  A path that cannot be read (a directory, an unreadable file) makes \<^verbatim>\<open>calculate_md5\<close>
  raise inside the \<^verbatim>\<open>try\<close>, which returns \<^verbatim>\<open>False\<close>. A file of at least
  \<open>large_threshold\<close> bytes is transferred while holding \<^verbatim>\<open>large_file_lock\<close>.
\<close>

definition upload_file :: "uploader \<Rightarrow> world \<Rightarrow> string \<Rightarrow> string option \<Rightarrow> file_upload" where
  "upload_file u w file_path target =
     (case w_fs w file_path of
        None \<Rightarrow> \<lparr>fu_result = False, fu_under_lock = False, fu_transfer = None\<rparr>
      | Some Dir \<Rightarrow> \<lparr>fu_result = False, fu_under_lock = False, fu_transfer = None\<rparr>
      | Some (File file_size readable) \<Rightarrow>
          (let target_path = (case target of None \<Rightarrow> basename file_path | Some t \<Rightarrow> t);
               url = target_url u target_path
           in if \<not> readable
              then \<lparr>fu_result = False, fu_under_lock = False, fu_transfer = None\<rparr>
              else (let t = upload_with_streaming w url file_size
                    in \<lparr>fu_result = tr_result t,
                        fu_under_lock = (file_size \<ge> large_threshold u),
                        fu_transfer = Some t\<rparr>)))"

subsection \<open>A directory (lines 285-365)\<close>

datatype error = ValueError

text \<open>
  \<^verbatim>\<open>os.path.getsize\<close> and \<^verbatim>\<open>Path.is_file\<close>. The function only asks for the size of
  paths for which \<^verbatim>\<open>is_file\<close> held, so the last case of \<open>getsize\<close> does not arise.
\<close>

definition getsize :: "world \<Rightarrow> string \<Rightarrow> int" where
  "getsize w p = (case w_fs w p of Some (File n _) \<Rightarrow> n | _ \<Rightarrow> 0)"

definition is_file :: "world \<Rightarrow> string \<Rightarrow> bool" where
  "is_file w p = (case w_fs w p of Some (File _ _) \<Rightarrow> True | _ \<Rightarrow> False)"

text \<open>
  What a run leaves behind: the value it returns, the success and failure records that
  \<^verbatim>\<open>upload_directory\<close> itself logs (lines 346-351 and 359-362: path, target, outcome;
  in the order logged) and the uploads it made. The records that \<^verbatim>\<open>upload_file\<close>,
  \<^verbatim>\<open>_upload_with_streaming\<close> and \<^verbatim>\<open>_validate_upload\<close> write to the same log while
  an upload runs are not part of \<open>dr_log\<close>.
\<close>

record dir_run =
  dr_returned :: bool
  dr_log :: "(string \<times> string \<times> bool) list"
  dr_uploads :: "(string \<times> file_upload) list"

definition upload_each :: "uploader \<Rightarrow> world \<Rightarrow> (string \<times> string) list \<Rightarrow>
    (string \<times> string \<times> bool) list" where
  "upload_each u w fs =
     map (\<lambda>(file_path, target_path).
            (file_path, target_path, fu_result (upload_file u w file_path (Some target_path)))) fs"

definition uploads_of :: "uploader \<Rightarrow> world \<Rightarrow> (string \<times> string) list \<Rightarrow>
    (string \<times> file_upload) list" where
  "uploads_of u w fs =
     map (\<lambda>(file_path, target_path). (file_path, upload_file u w file_path (Some target_path))) fs"

text \<open>Lines 292-302: the files among the items, each with its target path.\<close>

definition collect_files :: "world \<Rightarrow> (string \<times> string) list \<Rightarrow> string option \<Rightarrow>
    (string \<times> string) list" where
  "collect_files w items target_prefix =
     map (\<lambda>(item, rel_path).
            (item, case target_prefix of
                     None \<Rightarrow> rel_path
                   | Some prefix \<Rightarrow> if prefix = [] then rel_path else prefix @ ''/'' @ rel_path))
       (filter (\<lambda>(item, rel_path). is_file w item) items)"

text \<open>
  \<^verbatim>\<open>upload_directory(directory_path, target_prefix)\<close>. \<open>listing\<close> is \<open>None\<close> when the
  path is not a directory, otherwise what \<^verbatim>\<open>glob('**/*')\<close> yields: each item's path and
  its path relative to the directory. The files are sorted by size (a stable sort), split
  at \<open>large_threshold\<close>, the normal ones submitted to a pool of \<open>max_workers\<close> threads
  and logged as they complete, the large ones uploaded one after the other.
  \<^verbatim>\<open>ThreadPoolExecutor\<close> raises \<^verbatim>\<open>ValueError\<close> for \<open>max_workers \<le> 0\<close>, which nothing
  in the function catches.
\<close>

definition upload_directory :: "uploader \<Rightarrow> world \<Rightarrow> (string \<times> string) list option \<Rightarrow>
    string option \<Rightarrow> error + dir_run" where
  "upload_directory u w listing target_prefix =
     (case listing of
        None \<Rightarrow> Inr \<lparr>dr_returned = False, dr_log = [], dr_uploads = []\<rparr>
      | Some items \<Rightarrow>
          (let files = collect_files w items target_prefix
           in if length files = 0
              then Inr \<lparr>dr_returned = True, dr_log = [], dr_uploads = []\<rparr>
              else (let files = sort_key (\<lambda>x. getsize w (fst x)) files;
                        large_files = filter (\<lambda>(file_path, target_path).
                                                getsize w file_path \<ge> large_threshold u) files;
                        normal_files = filter (\<lambda>(file_path, target_path).
                                                 \<not> getsize w file_path \<ge> large_threshold u) files
                    in if normal_files \<noteq> [] \<and> max_workers u \<le> 0 then Inl ValueError
                       else Inr \<lparr>dr_returned = True,
                                 dr_log = upload_each u w (w_as_completed w normal_files)
                                          @ upload_each u w large_files,
                                 dr_uploads = uploads_of u w normal_files
                                              @ uploads_of u w large_files\<rparr>)))"

text \<open>What the caller of \<^verbatim>\<open>upload_directory\<close> receives: the exception or the Boolean.\<close>

definition returned :: "error + dir_run \<Rightarrow> error + bool" where
  "returned r = map_sum id dr_returned r"

subsection \<open>Notions used to state the properties of the transfer\<close>

definition put_ok :: "put_result \<Rightarrow> bool" where
  "put_ok r = (case r of PutResponse status_code text \<Rightarrow> status_code = 200 \<or> status_code = 201
               | PutRaises \<Rightarrow> False)"

definition next_deploy :: "put_result \<Rightarrow> bool \<Rightarrow> bool" where
  "next_deploy r deploy =
     (case r of PutResponse status_code text \<Rightarrow>
                  (if py_in ''checksum'' (lower text) then True else deploy)
      | PutRaises \<Rightarrow> deploy)"

text \<open>
  Whether attempt \<open>i\<close> carries \<^verbatim>\<open>X-Checksum-Deploy\<close> when all attempts before it have
  failed, and the server's answer to attempt \<open>i\<close> then.
\<close>

fun deploy_at :: "world \<Rightarrow> string \<Rightarrow> nat \<Rightarrow> bool" where
  "deploy_at w url 0 = False"
| "deploy_at w url (Suc i) = next_deploy (w_put w url i (deploy_at w url i)) (deploy_at w url i)"

definition answer :: "world \<Rightarrow> string \<Rightarrow> nat \<Rightarrow> put_result" where
  "answer w url i = w_put w url i (deploy_at w url i)"

subsection \<open>Concrete worlds\<close>

text \<open>
  A directory \<^verbatim>\<open>d\<close> with the file \<^verbatim>\<open>a.bin\<close> of 5 bytes, the subdirectory \<^verbatim>\<open>sub\<close>
  and in it the file \<^verbatim>\<open>big.bin\<close> of 200 MiB, and what \<^verbatim>\<open>glob('**/*')\<close> yields on it.
\<close>

definition mixed_fs :: "string \<Rightarrow> fs_node option" where
  "mixed_fs p = (if p = ''d/a.bin'' then Some (File 5 True)
                 else if p = ''d/sub/big.bin'' then Some (File (200 * 1024 * 1024) True)
                 else if p = ''d/sub'' then Some Dir else None)"

definition ex_listing :: "(string \<times> string) list" where
  "ex_listing = [(''d/sub'', ''sub''), (''d/sub/big.bin'', ''sub/big.bin''), (''d/a.bin'', ''a.bin'')]"

text \<open>A server that accepts every PUT and then answers the HEAD with 404.\<close>

definition w_unverified :: world where
  "w_unverified = \<lparr>w_fs = mixed_fs, w_put = (\<lambda>url retry deploy. PutResponse 201 ''''),
     w_head = (\<lambda>url. HeadResponse 404 NoContentLength), w_as_completed = rev\<rparr>"

text \<open>A server that answers 503 twice and then 201, and reports the size 5.\<close>

definition w_busy_twice :: world where
  "w_busy_twice = \<lparr>w_fs = mixed_fs,
     w_put = (\<lambda>url retry deploy. if retry < 2 then PutResponse 503 ''busy''
                                   else PutResponse 201 ''''),
     w_head = (\<lambda>url. HeadResponse 200 (ContentLength 5)), w_as_completed = rev\<rparr>"

text \<open>A server that answers every PUT with 500.\<close>

definition w_down :: world where
  "w_down = \<lparr>w_fs = mixed_fs, w_put = (\<lambda>url retry deploy. PutResponse 500 ''''),
     w_head = (\<lambda>url. HeadResponse 200 (ContentLength 5)), w_as_completed = rev\<rparr>"

text \<open>
  A server that rejects \<^verbatim>\<open>big.bin\<close> with 500 and accepts everything else, reporting the
  size 5; the pool's futures complete in the reverse of the order of submission.
\<close>

definition w_mixed :: world where
  "w_mixed = \<lparr>w_fs = mixed_fs,
     w_put = (\<lambda>url retry deploy. if endswith url ''big.bin'' then PutResponse 500 ''''
                                   else PutResponse 201 ''''),
     w_head = (\<lambda>url. HeadResponse 200 (ContentLength 5)), w_as_completed = rev\<rparr>"

definition ex_uploader :: uploader where
  "ex_uploader = JFrogUploader None ''http://host/'' ''repo'' DEFAULT_CONCURRENT_UPLOADS
     DEFAULT_LARGE_FILE_THRESHOLD None"

section \<open>The archive builder (script2.py)\<close>

subsection \<open>The world the builder acts on\<close>

text \<open>
  The exceptions the builder tells apart: \<^verbatim>\<open>IOError\<close> (an alias of \<^verbatim>\<open>OSError\<close>), which
  it retries, and every other \<^verbatim>\<open>Exception\<close>, which it does not.
\<close>

datatype exn = IOError | OtherError

text \<open>
  One iteration of the chunk loop of a large file (lines 272-286): a chunk of \<open>n\<close> bytes
  was read and written (\<open>n = 0\<close>: the read returned no bytes), the read raised, or a
  chunk of \<open>n\<close> bytes was read and the write of it raised.
\<close>

datatype chunk_event = Wrote nat | ReadRaises exn | WriteRaises nat exn

text \<open>
  What one attempt on a file meets: \<open>ae_setup\<close> is the exception, if any, raised before the
  entry stream is open (by \<^verbatim>\<open>open\<close>, \<^verbatim>\<open>mmap\<close>, \<^verbatim>\<open>ZipFile\<close>, \<^verbatim>\<open>zf.open\<close> and, for a
  file of at most 10 MiB, the \<^verbatim>\<open>read\<close> of the whole file); \<open>ae_write\<close> is the exception,
  if any, raised by the one \<^verbatim>\<open>dest.write(data)\<close> of a file of at most 10 MiB;
  \<open>ae_chunks\<close> are the iterations of the chunk loop of a larger file, after which the read
  returns no more bytes.
\<close>

record attempt_env =
  ae_setup :: "exn option"
  ae_write :: "exn option"
  ae_chunks :: "chunk_event list"

text \<open>
  The collaborators of a build: what \<^verbatim>\<open>os.walk(source_folder)\<close> yields when the files are
  scanned and when the archive is validated (each directory with the names of its files;
  the second walk sees the output archive when it lies inside the source folder),
  \<^verbatim>\<open>os.path.getsize\<close> (\<open>None\<close> when it raises) and what each attempt on a file meets.
\<close>

record zip_world =
  zw_walk :: "(string \<times> string list) list"
  zw_walk_validation :: "(string \<times> string list) list"
  zw_getsize :: "string \<Rightarrow> int option"
  zw_attempt :: "string \<Rightarrow> nat \<Rightarrow> attempt_env"

type_synonym file_info = "string \<times> string \<times> int"

subsection \<open>Paths\<close>

text \<open>\<^verbatim>\<open>os.path.join(root, file)\<close> for a file name, which never starts with a slash.\<close>

definition os_path_join :: "string \<Rightarrow> string \<Rightarrow> string" where
  "os_path_join dirpath file =
     (if dirpath = [] \<or> last dirpath = CHR ''/'' then dirpath @ file else dirpath @ ''/'' @ file)"

text \<open>
  \<^verbatim>\<open>os.path.relpath(file_path, source_folder)\<close> for a path that \<^verbatim>\<open>os.walk\<close> yielded below
  the normalised \<open>source_folder\<close>: the path without the folder and the slash after it.
\<close>

definition relpath :: "string \<Rightarrow> string \<Rightarrow> string" where
  "relpath file_path source_folder =
     (let start = (if source_folder \<noteq> [] \<and> last source_folder = CHR ''/''
                   then source_folder else source_folder @ ''/'')
      in if startswith file_path start then drop (length start) file_path else file_path)"

text \<open>\<^verbatim>\<open>file_path.lower().endswith('.zip')\<close>\<close>

definition is_zip_path :: "string \<Rightarrow> bool" where
  "is_zip_path file_path = endswith (lower file_path) ''.zip''"

text \<open>\<^verbatim>\<open>rel_path.replace('\\', '/')\<close>\<close>

definition to_zip_name :: "string \<Rightarrow> string" where
  "to_zip_name rel_path = map (\<lambda>c. if c = CHR 0x5C then CHR ''/'' else c) rel_path"

subsection \<open>One file (lines 216-331)\<close>

definition max_retries :: nat where
  "max_retries = 3"

definition retry_delay :: nat where
  "retry_delay = 1"

text \<open>
  The chunk loop \<^verbatim>\<open>while bytes_written < file_size\<close> of attempt \<open>attempt\<close>, on the
  iterations that are left, \<^verbatim>\<open>bytes_written\<close>, the size the entry stream has counted and
  the sleeps so far. \<^verbatim>\<open>bytes_written\<close> grows after a write that returned; the entry
  stream of \<^verbatim>\<open>zipfile\<close> counts a chunk when \<^verbatim>\<open>write\<close> is called, before it writes it,
  so a chunk whose write raised is counted in the entry's size and not in
  \<^verbatim>\<open>bytes_written\<close>. An \<^verbatim>\<open>IOError\<close> in an iteration of an attempt before the last
  sleeps \<open>retry_delay\<close> and continues with the next iteration; in the last attempt it is
  raised again. Any other exception leaves the loop. The result is the exception that
  left the loop, if any, \<^verbatim>\<open>bytes_written\<close>, the size counted and the sleeps.
\<close>

fun chunk_loop :: "int \<Rightarrow> nat \<Rightarrow> chunk_event list \<Rightarrow> int \<Rightarrow> int \<Rightarrow> nat list \<Rightarrow>
    exn option \<times> int \<times> int \<times> nat list" where
  "chunk_loop file_size attempt [] bytes_written counted sl = (None, bytes_written, counted, sl)"
| "chunk_loop file_size attempt (e # es) bytes_written counted sl =
     (if bytes_written < file_size
      then (case e of
              Wrote n \<Rightarrow>
                if n = 0 then (None, bytes_written, counted, sl)
                else chunk_loop file_size attempt es (bytes_written + int n) (counted + int n) sl
            | ReadRaises x \<Rightarrow>
                if x = IOError \<and> attempt < max_retries - 1
                then chunk_loop file_size attempt es bytes_written counted (sl @ [retry_delay])
                else (Some x, bytes_written, counted, sl)
            | WriteRaises n x \<Rightarrow>
                if n = 0 then (None, bytes_written, counted, sl)
                else if x = IOError \<and> attempt < max_retries - 1
                then chunk_loop file_size attempt es bytes_written (counted + int n)
                       (sl @ [retry_delay])
                else (Some x, bytes_written, counted + int n, sl))
      else (None, bytes_written, counted, sl))"

text \<open>
  The body of the \<^verbatim>\<open>try\<close> of one attempt: the exception it ends with, if any, the entries
  it leaves in the container's directory and its sleeps. An exception before the entry
  stream is open leaves no entry. Once the stream is open, \<^verbatim>\<open>zipfile\<close> records the entry,
  with the size it has counted, when the stream is closed, which the \<^verbatim>\<open>with\<close> statement
  also does when an exception leaves it: a file of more than 10 MiB is streamed and its
  entry has the size counted by the chunk loop; a smaller file is written as one unit and
  its entry has the size of the file, also when that write raised.
\<close>

definition attempt_once :: "zip_world \<Rightarrow> file_info \<Rightarrow> nat \<Rightarrow>
    exn option \<times> (string \<times> int) list \<times> nat list" where
  "attempt_once zw file_info attempt =
     (case file_info of (file_path, rel_path, file_size) \<Rightarrow>
        (let env = zw_attempt zw file_path attempt
         in case ae_setup env of
              Some x \<Rightarrow> (Some x, [], [])
            | None \<Rightarrow>
                if file_size > 10 * 1024 * 1024
                then (case chunk_loop file_size attempt (ae_chunks env) 0 0 [] of
                        (r, bytes_written, counted, sl) \<Rightarrow> (r, [(rel_path, counted)], sl))
                else (ae_write env, [(rel_path, file_size)], [])))"

text \<open>
  What a call of \<^verbatim>\<open>process_single_file\<close> leaves behind: the exception it raised, if
  any, the number of attempts, the arguments of its \<^verbatim>\<open>time.sleep\<close> calls, the entries it
  added to the container's directory and the chunk size it read with.
\<close>

record psf_result =
  psf_raised :: "exn option"
  psf_attempts :: nat
  psf_sleeps :: "nat list"
  psf_entries :: "(string \<times> int) list"
  psf_chunk_size :: int

text \<open>
  The loop \<^verbatim>\<open>for attempt in range(max_retries)\<close>, with \<open>n\<close> iterations left. An attempt
  that ends without exception returns. An \<^verbatim>\<open>IOError\<close> sleeps \<open>retry_delay\<close> and goes
  on, unless the attempt was the last, which raises it again; any other exception is
  raised at once.
\<close>

fun psf_loop :: "zip_world \<Rightarrow> file_info \<Rightarrow> nat \<Rightarrow> nat \<Rightarrow> psf_result \<Rightarrow> psf_result" where
  "psf_loop zw file_info 0 attempt acc = acc"
| "psf_loop zw file_info (Suc n) attempt acc =
     (case attempt_once zw file_info attempt of
        (r, entries, sl) \<Rightarrow>
          (let acc = acc\<lparr>psf_attempts := psf_attempts acc + 1,
                         psf_sleeps := psf_sleeps acc @ sl,
                         psf_entries := psf_entries acc @ entries\<rparr>
           in case r of
                None \<Rightarrow> acc
              | Some x \<Rightarrow>
                  if x = IOError
                  then (if attempt < max_retries - 1
                        then psf_loop zw file_info n (attempt + 1)
                               (acc\<lparr>psf_sleeps := psf_sleeps acc @ [retry_delay]\<rparr>)
                        else acc\<lparr>psf_raised := Some IOError\<rparr>)
                  else acc\<lparr>psf_raised := Some x\<rparr>))"

definition process_single_file :: "zip_world \<Rightarrow> int \<Rightarrow> file_info \<Rightarrow> psf_result" where
  "process_single_file zw available_memory file_info =
     (case file_info of (file_path, rel_path, file_size) \<Rightarrow>
        (let chunk_size = get_optimal_chunk_size file_size available_memory;
             chunk_size = (if file_size > 10 * 1024 * 1024 \<and> file_size > 1024 * 1024 * 1024
                           then max chunk_size (16 * 1024 * 1024) else chunk_size)
         in psf_loop zw file_info max_retries 0
              \<lparr>psf_raised = None, psf_attempts = 0, psf_sleeps = [], psf_entries = [],
               psf_chunk_size = chunk_size\<rparr>))"

subsection \<open>Validation (lines 334-399)\<close>

text \<open>
  The walk of the validation: \<open>Aborted\<close> when \<^verbatim>\<open>getsize\<close> raised (the function returns
  \<^verbatim>\<open>False\<close> at once), otherwise the lists \<^verbatim>\<open>missing_files\<close> and \<^verbatim>\<open>size_mismatches\<close>.
\<close>

datatype validation = Aborted | Checked "string list" "(string \<times> int \<times> int) list"

text \<open>The paths a walk visits, in its order: each file's path and its relative path.\<close>

definition walk_paths :: "string \<Rightarrow> (string \<times> string list) list \<Rightarrow> (string \<times> string) list" where
  "walk_paths source_folder walk =
     concat (map (\<lambda>(dirpath, files).
                    map (\<lambda>file. (os_path_join dirpath file,
                                  relpath (os_path_join dirpath file) source_folder)) files) walk)"

fun validate_files :: "zip_world \<Rightarrow> (string \<Rightarrow> int option) \<Rightarrow> (string \<times> string) list \<Rightarrow>
    string list \<Rightarrow> (string \<times> int \<times> int) list \<Rightarrow> validation" where
  "validate_files zw zip_files [] missing_files size_mismatches =
     Checked missing_files size_mismatches"
| "validate_files zw zip_files ((file_path, rel) # rest) missing_files size_mismatches =
     (let rel_path = to_zip_name rel
      in if is_zip_path file_path
         then validate_files zw zip_files rest missing_files size_mismatches
         else (case zw_getsize zw file_path of
                 None \<Rightarrow> Aborted
               | Some source_size \<Rightarrow>
                   (case zip_files rel_path of
                      None \<Rightarrow>
                        validate_files zw zip_files rest (missing_files @ [rel_path])
                          size_mismatches
                    | Some zip_size \<Rightarrow>
                        if source_size \<noteq> zip_size
                        then validate_files zw zip_files rest missing_files
                               (size_mismatches @ [(rel_path, source_size, zip_size)])
                        else validate_files zw zip_files rest missing_files size_mismatches)))"

text \<open>
  \<^verbatim>\<open>zip_files\<close> is a dictionary built from \<^verbatim>\<open>infolist()\<close>: of two entries with one name
  the later one stays.
\<close>

definition validation_walk :: "zip_world \<Rightarrow> string \<Rightarrow> (string \<times> int) list \<Rightarrow> validation" where
  "validation_walk zw source_folder archive =
     validate_files zw (map_of (rev archive))
       (walk_paths source_folder (zw_walk_validation zw)) [] []"

definition quick_validate_zip :: "zip_world \<Rightarrow> string \<Rightarrow> (string \<times> int) list \<Rightarrow> bool" where
  "quick_validate_zip zw source_folder archive =
     (case validation_walk zw source_folder archive of
        Aborted \<Rightarrow> False
      | Checked missing_files size_mismatches \<Rightarrow>
          if missing_files \<noteq> [] then False
          else if size_mismatches \<noteq> [] then False
          else True)"

subsection \<open>The build (lines 402-471)\<close>

text \<open>
  Lines 419-434 for one directory: the names in ascending order; a path that ends in
  \<^verbatim>\<open>.zip\<close> is skipped, and so is a file whose size cannot be read.
\<close>

fun scan_dir :: "zip_world \<Rightarrow> string \<Rightarrow> string \<Rightarrow> string list \<Rightarrow> file_info list" where
  "scan_dir zw source_folder dirpath [] = []"
| "scan_dir zw source_folder dirpath (file # files) =
     (let file_path = os_path_join dirpath file;
          rel_path = relpath file_path source_folder
      in if is_zip_path file_path then scan_dir zw source_folder dirpath files
         else (case zw_getsize zw file_path of
                 None \<Rightarrow> scan_dir zw source_folder dirpath files
               | Some file_size \<Rightarrow>
                   (file_path, rel_path, file_size) # scan_dir zw source_folder dirpath files))"

definition scan_files :: "zip_world \<Rightarrow> string \<Rightarrow> file_info list" where
  "scan_files zw source_folder =
     concat (map (\<lambda>(dirpath, files). scan_dir zw source_folder dirpath (sort files)) (zw_walk zw))"

text \<open>
  What a build leaves behind: the value returned, the directory of the container (name
  and size of each entry, in the order written), the files handed to
  \<^verbatim>\<open>process_single_file\<close>, in order, those for which it raised, and the chunk size
  announced.
\<close>

record zip_run =
  zr_returned :: bool
  zr_archive :: "(string \<times> int) list"
  zr_processed :: "file_info list"
  zr_failed :: "file_info list"
  zr_chunk_size :: int

text \<open>
  The state of the loop of lines 450-458: the directory of the container, the files handed
  to \<^verbatim>\<open>process_single_file\<close> so far, those for which it raised, and \<^verbatim>\<open>processed_size\<close>.
\<close>

record build_state =
  bs_archive :: "(string \<times> int) list"
  bs_processed :: "file_info list"
  bs_failed :: "file_info list"
  bs_processed_size :: int

text \<open>
  The loop \<^verbatim>\<open>for file_info in all_files\<close>: \<^verbatim>\<open>process_single_file\<close> appends its entries
  to the container; when it returns, \<^verbatim>\<open>processed_size\<close> grows by the size of the file;
  when it raises, the exception is printed and the loop continues with the next file.
\<close>

fun process_all :: "zip_world \<Rightarrow> int \<Rightarrow> file_info list \<Rightarrow> build_state \<Rightarrow> build_state" where
  "process_all zw available_memory [] st = st"
| "process_all zw available_memory (file_info # rest) st =
     (let r = process_single_file zw available_memory file_info;
          st = st\<lparr>bs_archive := bs_archive st @ psf_entries r,
                  bs_processed := bs_processed st @ [file_info]\<rparr>
      in case psf_raised r of
           None \<Rightarrow>
             process_all zw available_memory rest
               (st\<lparr>bs_processed_size := bs_processed_size st + snd (snd file_info)\<rparr>)
         | Some x \<Rightarrow>
             process_all zw available_memory rest (st\<lparr>bs_failed := bs_failed st @ [file_info]\<rparr>))"

text \<open>
  \<^verbatim>\<open>zip_with_builtin(source_folder, output_zip, chunk_size, compress, validate)\<close>. The
  container is created empty; every scanned file is processed in turn; the build returns
  \<^verbatim>\<open>False\<close> only when the validation was asked for and fails.
\<close>

definition zip_with_builtin :: "zip_world \<Rightarrow> int \<Rightarrow> string \<Rightarrow> int option \<Rightarrow> bool \<Rightarrow> zip_run" where
  "zip_with_builtin zw available_memory source_folder chunk_size validate =
     (let chunk_size = (case chunk_size of
                          None \<Rightarrow> get_recommended_chunk_size available_memory
                        | Some c \<Rightarrow> c);
          all_files = scan_files zw source_folder;
          st = process_all zw available_memory all_files
                 \<lparr>bs_archive = [], bs_processed = [], bs_failed = [], bs_processed_size = 0\<rparr>
      in \<lparr>zr_returned = (if validate
                          then (if \<not> quick_validate_zip zw source_folder (bs_archive st)
                                then False else True)
                          else True),
          zr_archive = bs_archive st, zr_processed = bs_processed st, zr_failed = bs_failed st,
          zr_chunk_size = chunk_size\<rparr>)"

subsection \<open>Notions used to state the properties of the attempts\<close>




subsection \<open>The output path (lines 774-786)\<close>

text \<open>
  \<^verbatim>\<open>main\<close> adjusts the output path before the build: an existing directory gets the name
  of the source folder with \<^verbatim>\<open>.zip\<close> inside it, and any other path that does not end in
  \<^verbatim>\<open>.zip\<close> gets \<^verbatim>\<open>.zip\<close> appended.
\<close>

definition adjusted_output :: "bool \<Rightarrow> string \<Rightarrow> string \<Rightarrow> string" where
  "adjusted_output output_is_dir source_folder output_zip =
     (if output_is_dir \<or> \<not> endswith (lower output_zip) ''.zip''
      then (if output_is_dir
            then (let source_name = basename source_folder
                  in os_path_join output_zip (source_name @ ''.zip''))
            else output_zip @ ''.zip'')
      else output_zip)"

section \<open>The archive of the Nexus uploader (nexus-upload-script.py, lines 42-164)\<close>

text \<open>
  An item that \<^verbatim>\<open>glob("**/*")\<close> yields: its name relative to the source, whether it is a
  file, its size, and whether it can be added (reading or writing it raises otherwise).
\<close>

record nx_item =
  nx_arcname :: string
  nx_is_file :: bool
  nx_size :: int
  nx_addable :: bool

datatype nx_error = NxValueError | NxAddFailed string

text \<open>
  Lines 110-150: the files are added in the order of the listing; an exception while adding
  one is logged and raised again, which ends the build.
\<close>

fun nx_add_files :: "nx_item list \<Rightarrow> (string \<times> int) list \<Rightarrow> nx_error + (string \<times> int) list" where
  "nx_add_files [] entries = Inr entries"
| "nx_add_files (f # fs) entries =
     (if nx_addable f then nx_add_files fs (entries @ [(nx_arcname f, nx_size f)])
      else Inl (NxAddFailed (nx_arcname f)))"

text \<open>
  \<^verbatim>\<open>create_zip_archive(source_dir, ...)\<close>: \<open>listing\<close> is \<open>None\<close> when the source is not
  an existing directory. The result is the exception or the directory of the archive.
\<close>

definition create_zip_archive :: "nx_item list option \<Rightarrow> nx_error + (string \<times> int) list" where
  "create_zip_archive listing =
     (case listing of
        None \<Rightarrow> Inl NxValueError
      | Some items \<Rightarrow>
          (let file_count = length (filter nx_is_file items)
           in if file_count = 0 then Inl NxValueError
              else (let files_list = filter nx_is_file items
                    in nx_add_files files_list [])))"

subsection \<open>Concrete source folders\<close>

text \<open>
  The folder \<^verbatim>\<open>/src\<close> with \<^verbatim>\<open>a.bin\<close> (10 bytes), \<^verbatim>\<open>b.bin\<close> (5 bytes) and an older
  archive \<^verbatim>\<open>old.ZIP\<close>; the output \<^verbatim>\<open>out.zip\<close> is written into it, so the walk of the
  validation sees it. In \<open>zw_two\<close> every attempt succeeds; in \<open>zw_unreadable\<close> every
  attempt on \<^verbatim>\<open>a.bin\<close> raises \<^verbatim>\<open>IOError\<close> before the entry stream is open; in
  \<open>zw_flaky\<close> only the first attempt on \<^verbatim>\<open>a.bin\<close> does.
\<close>

definition two_getsize :: "string \<Rightarrow> int option" where
  "two_getsize p = (if p = ''/src/a.bin'' then Some 10
                    else if p = ''/src/b.bin'' then Some 5
                    else if p = ''/src/old.ZIP'' then Some 7
                    else if p = ''/src/out.zip'' then Some 100 else None)"

definition zw_two :: zip_world where
  "zw_two = \<lparr>zw_walk = [(''/src'', [''b.bin'', ''old.ZIP'', ''a.bin''])],
     zw_walk_validation = [(''/src'', [''b.bin'', ''old.ZIP'', ''a.bin'', ''out.zip''])],
     zw_getsize = two_getsize,
     zw_attempt = (\<lambda>p i. \<lparr>ae_setup = None, ae_write = None, ae_chunks = []\<rparr>)\<rparr>"

definition zw_unreadable :: zip_world where
  "zw_unreadable = zw_two\<lparr>zw_attempt :=
     (\<lambda>p i. \<lparr>ae_setup = (if p = ''/src/a.bin'' then Some IOError else None),
              ae_write = None, ae_chunks = []\<rparr>)\<rparr>"




section \<open>Properties of the chunk sizes\<close>

lemma clamp_and_round_bounds:
  "MIN_CHUNK_SIZE \<le> clamp_and_round c \<and> clamp_and_round c \<le> MAX_CHUNK_SIZE"
proof -
  define d where "d = max (1048576::int) (min 67108864 c)"
  have lo: "1048576 \<le> d" and hi: "d \<le> 67108864"
    by (simp_all add: d_def)
  have "1 \<le> d div 1048576"
    using lo by (simp add: pos_imp_zdiv_pos_iff)
  moreover have "d div 1048576 \<le> 64"
    using hi zdiv_mono1 [of d 67108864 1048576] by simp
  ultimately show ?thesis
    by (simp add: clamp_and_round_def MIN_CHUNK_SIZE_def MAX_CHUNK_SIZE_def Let_def
        d_def [symmetric])
qed

lemma default_chunk_bounds:
  "MIN_CHUNK_SIZE \<le> DEFAULT_CHUNK_SIZE \<and> DEFAULT_CHUNK_SIZE \<le> MAX_CHUNK_SIZE"
  by (simp add: MIN_CHUNK_SIZE_def MAX_CHUNK_SIZE_def DEFAULT_CHUNK_SIZE_def)

lemma calculate_optimal_chunk_size_bounds:
  "MIN_CHUNK_SIZE \<le> calculate_optimal_chunk_size mem streams \<and>
   calculate_optimal_chunk_size mem streams \<le> MAX_CHUNK_SIZE"
  using clamp_and_round_bounds default_chunk_bounds
  by (simp add: calculate_optimal_chunk_size_def Let_def split: option.split prod.split)

lemma get_recommended_chunk_size_bounds:
  "8192 \<le> get_recommended_chunk_size a \<and> get_recommended_chunk_size a \<le> 64 * 1024 * 1024"
  by (simp add: get_recommended_chunk_size_def)

text \<open>
  Claim C1, as stated, fails for the companion recommendation: with no memory available
  \<^verbatim>\<open>get_recommended_chunk_size\<close> returns 8 KiB, below \<open>MIN_CHUNK_SIZE\<close>.
\<close>

theorem C1_companion_below_min:
  "get_recommended_chunk_size 0 = 8192 \<and> \<not> MIN_CHUNK_SIZE \<le> get_recommended_chunk_size 0"
  by (simp add: get_recommended_chunk_size_def MIN_CHUNK_SIZE_def)

text \<open>
  Claim C1, amended: for every memory reading (also a failed one) and every number of
  streams, \<^verbatim>\<open>calculate_optimal_chunk_size\<close> returns a chunk size in
  \<open>[MIN_CHUNK_SIZE, MAX_CHUNK_SIZE]\<close> = [1 MiB, 64 MiB], and so does its clamp on every
  intermediate integer; the companion \<^verbatim>\<open>get_recommended_chunk_size\<close> returns a chunk
  size in [8 KiB, 64 MiB].
\<close>

theorem C1_chunk_size_bounds:
  "MIN_CHUNK_SIZE = 1048576 \<and> MAX_CHUNK_SIZE = 67108864 \<and>
   MIN_CHUNK_SIZE \<le> calculate_optimal_chunk_size mem streams \<and>
   calculate_optimal_chunk_size mem streams \<le> MAX_CHUNK_SIZE \<and>
   MIN_CHUNK_SIZE \<le> clamp_and_round c \<and> clamp_and_round c \<le> MAX_CHUNK_SIZE \<and>
   8192 \<le> get_recommended_chunk_size available_memory \<and>
   get_recommended_chunk_size available_memory \<le> MAX_CHUNK_SIZE"
  using calculate_optimal_chunk_size_bounds [of mem streams] clamp_and_round_bounds [of c]
    get_recommended_chunk_size_bounds [of available_memory]
  by (simp add: MIN_CHUNK_SIZE_def MAX_CHUNK_SIZE_def)

text \<open>
  Claim C6, as stated, fails at both thresholds, which the source compares with \<^verbatim>\<open>>\<close>:
  a file of exactly 1 GiB gets the 4 MiB floor, a file of exactly 100 MiB gets no raised
  floor at all.
\<close>

theorem C6_floor_at_threshold:
  "get_optimal_chunk_size (1024 * 1024 * 1024) 0 = 4 * 1024 * 1024 \<and>
   \<not> 16 * 1024 * 1024 \<le> get_optimal_chunk_size (1024 * 1024 * 1024) 0 \<and>
   get_optimal_chunk_size (100 * 1024 * 1024) 0 = 8192 \<and>
   \<not> 4 * 1024 * 1024 \<le> get_optimal_chunk_size (100 * 1024 * 1024) 0"
  by (simp add: get_optimal_chunk_size_def)

text \<open>
  Claim C6, amended: for every file strictly larger than 1 GiB the advised chunk size is at
  least 16 MiB, and for every file strictly larger than 100 MiB it is at least 4 MiB,
  whatever the available memory.
\<close>

theorem C6_large_file_floor:
  "(1024 * 1024 * 1024 < file_size \<longrightarrow>
      16 * 1024 * 1024 \<le> get_optimal_chunk_size file_size available_memory) \<and>
   (100 * 1024 * 1024 < file_size \<longrightarrow>
      4 * 1024 * 1024 \<le> get_optimal_chunk_size file_size available_memory)"
  by (auto simp add: get_optimal_chunk_size_def Let_def)

text \<open>A file of 1 GiB and one byte, with no memory available.\<close>

theorem C6_large_file_floor_witness:
  "(1024 * 1024 * 1024 < (1073741825::int) \<and> 100 * 1024 * 1024 < (1073741825::int)) \<and>
   16 * 1024 * 1024 \<le> get_optimal_chunk_size 1073741825 0 \<and>
   4 * 1024 * 1024 \<le> get_optimal_chunk_size 1073741825 0"
  using C6_large_file_floor [of 1073741825 0] by simp

section \<open>Properties of the retrying transfer\<close>

lemma upload_loop_fail_step:
  "\<not> put_ok (w_put w url retry deploy) \<Longrightarrow>
   upload_loop w url file_size (Suc n) retry deploy acc =
   upload_loop w url file_size n (Suc retry) (next_deploy (w_put w url retry deploy) deploy)
     (acc\<lparr>tr_attempts := tr_attempts acc + 1,
          tr_net := tr_net acc @ [PUT url retry deploy],
          tr_sleeps := tr_sleeps acc @ [RETRY_BACKOFF_FACTOR * 2 ^ retry]\<rparr>)"
  by (cases "w_put w url retry deploy") (auto simp: put_ok_def next_deploy_def Let_def)

lemma upload_loop_ok_step:
  "put_ok (w_put w url retry deploy) \<Longrightarrow>
   upload_loop w url file_size (Suc n) retry deploy acc =
   acc\<lparr>tr_attempts := tr_attempts acc + 1,
        tr_net := tr_net acc @ [PUT url retry deploy] @ [HEAD url],
        tr_result := validate_upload (w_head w url) file_size\<rparr>"
  by (cases "w_put w url retry deploy") (auto simp: put_ok_def Let_def)

text \<open>
  The loop entered at iteration \<open>j\<close> with \<open>n\<close> iterations left, when the next \<open>k < n\<close>
  attempts fail and the one after them is accepted.
\<close>

lemma upload_loop_succeeds:
  "k < n \<Longrightarrow> (\<forall>i<k. \<not> put_ok (answer w url (j + i))) \<Longrightarrow> put_ok (answer w url (j + k)) \<Longrightarrow>
   upload_loop w url file_size n j (deploy_at w url j) acc =
   acc\<lparr>tr_attempts := tr_attempts acc + k + 1,
        tr_net := tr_net acc @ map (\<lambda>i. PUT url i (deploy_at w url i)) [j..<j + k + 1] @ [HEAD url],
        tr_sleeps := tr_sleeps acc @ map (\<lambda>i. RETRY_BACKOFF_FACTOR * 2 ^ i) [j..<j + k],
        tr_result := validate_upload (w_head w url) file_size\<rparr>"
proof (induction k arbitrary: n j acc)
  case 0
  then obtain m where n: "n = Suc m" by (cases n) auto
  from 0 have ok: "put_ok (w_put w url j (deploy_at w url j))" by (simp add: answer_def)
  show ?case unfolding n upload_loop_ok_step [OF ok] by simp
next
  case (Suc k)
  then obtain m where n: "n = Suc m" by (cases n) auto
  from Suc.prems have bad: "\<not> put_ok (w_put w url j (deploy_at w url j))"
    by (auto simp: answer_def dest: spec [of _ 0])
  have km: "k < m" using Suc.prems n by simp
  have rest: "\<forall>i<k. \<not> put_ok (answer w url (Suc j + i))"
    using Suc.prems(2) by (auto dest: spec [of _ "Suc _"])
  have last: "put_ok (answer w url (Suc j + k))" using Suc.prems(3) by simp
  have d: "next_deploy (w_put w url j (deploy_at w url j)) (deploy_at w url j) = deploy_at w url (Suc j)"
    by simp
  show ?case
    unfolding n upload_loop_fail_step [OF bad] d
    by (simp add: Suc.IH [OF km rest last] upt_rec [of j] del: deploy_at.simps)
qed

text \<open>The loop when every attempt that is left fails.\<close>

lemma upload_loop_exhausted:
  "(\<forall>i<n. \<not> put_ok (answer w url (j + i))) \<Longrightarrow>
   upload_loop w url file_size n j (deploy_at w url j) acc =
   acc\<lparr>tr_attempts := tr_attempts acc + n,
        tr_net := tr_net acc @ map (\<lambda>i. PUT url i (deploy_at w url i)) [j..<j + n],
        tr_sleeps := tr_sleeps acc @ map (\<lambda>i. RETRY_BACKOFF_FACTOR * 2 ^ i) [j..<j + n],
        tr_result := False\<rparr>"
proof (induction n arbitrary: j acc)
  case 0
  show ?case by simp
next
  case (Suc n)
  from Suc.prems have bad: "\<not> put_ok (w_put w url j (deploy_at w url j))"
    by (auto simp: answer_def dest: spec [of _ 0])
  have rest: "\<forall>i<n. \<not> put_ok (answer w url (Suc j + i))"
    using Suc.prems by (auto dest: spec [of _ "Suc _"])
  have d: "next_deploy (w_put w url j (deploy_at w url j)) (deploy_at w url j) = deploy_at w url (Suc j)"
    by simp
  show ?case
    unfolding upload_loop_fail_step [OF bad] d
    by (simp add: Suc.IH [OF rest] upt_rec [of j] del: deploy_at.simps)
qed

text \<open>
  Claim C2, as stated, fails: when the first PUT is accepted (201) and the HEAD request of
  the validation answers 404, \<^verbatim>\<open>_upload_with_streaming\<close> returns \<^verbatim>\<open>False\<close> after its
  one attempt, and makes no further attempt.
\<close>

theorem C2_accepted_but_failure_returned:
  "put_ok (answer w_unverified ''u'' 0) \<and>
   tr_attempts (upload_with_streaming w_unverified ''u'' 5) = 1 \<and>
   tr_result (upload_with_streaming w_unverified ''u'' 5) = False"
  by (simp add: upload_with_streaming_def MAX_RETRIES_def numeral_3_eq_3 answer_def
      w_unverified_def put_ok_def validate_upload_def)

text \<open>
  Claim C2, amended: if the PUT fails (any status other than 200 and 201, or an exception)
  \<open>k\<close> times with \<open>k < MAX_RETRIES\<close> and is then accepted, \<^verbatim>\<open>_upload_with_streaming\<close>
  makes exactly \<open>k + 1\<close> attempts and returns the verdict of the validation that follows
  the accepted attempt (success exactly when the validation passes), having slept
  \<open>RETRY_BACKOFF_FACTOR * 2 ^ i\<close> after failure \<open>i\<close>; if the PUT fails on every one of
  the \<open>MAX_RETRIES = 3\<close> attempts it returns failure after exactly \<open>MAX_RETRIES\<close>
  attempts.
\<close>

theorem C2_retry_attempts:
  "(k < MAX_RETRIES \<and> (\<forall>i<k. \<not> put_ok (answer w url i)) \<and> put_ok (answer w url k) \<longrightarrow>
      tr_attempts (upload_with_streaming w url file_size) = k + 1 \<and>
      tr_result (upload_with_streaming w url file_size) = validate_upload (w_head w url) file_size \<and>
      tr_sleeps (upload_with_streaming w url file_size) =
        map (\<lambda>i. RETRY_BACKOFF_FACTOR * 2 ^ i) [0..<k]) \<and>
   ((\<forall>i<MAX_RETRIES. \<not> put_ok (answer w url i)) \<longrightarrow>
      tr_attempts (upload_with_streaming w url file_size) = MAX_RETRIES \<and>
      tr_result (upload_with_streaming w url file_size) = False \<and>
      tr_sleeps (upload_with_streaming w url file_size) =
        map (\<lambda>i. RETRY_BACKOFF_FACTOR * 2 ^ i) [0..<MAX_RETRIES])"
proof (intro conjI impI)
  assume h: "k < MAX_RETRIES \<and> (\<forall>i<k. \<not> put_ok (answer w url i)) \<and> put_ok (answer w url k)"
  then have eq: "upload_with_streaming w url file_size =
      \<lparr>tr_result = validate_upload (w_head w url) file_size, tr_attempts = k + 1,
       tr_sleeps = map (\<lambda>i. RETRY_BACKOFF_FACTOR * 2 ^ i) [0..<k],
       tr_net = map (\<lambda>i. PUT url i (deploy_at w url i)) [0..<k + 1] @ [HEAD url]\<rparr>"
    unfolding upload_with_streaming_def
    using upload_loop_succeeds [of k MAX_RETRIES w url 0 file_size]
    by simp
  show "tr_attempts (upload_with_streaming w url file_size) = k + 1"
    and "tr_result (upload_with_streaming w url file_size) = validate_upload (w_head w url) file_size"
    and "tr_sleeps (upload_with_streaming w url file_size) = map (\<lambda>i. RETRY_BACKOFF_FACTOR * 2 ^ i) [0..<k]"
    by (simp_all add: eq)
next
  assume h: "\<forall>i<MAX_RETRIES. \<not> put_ok (answer w url i)"
  then have eq: "upload_with_streaming w url file_size =
      \<lparr>tr_result = False, tr_attempts = MAX_RETRIES,
       tr_sleeps = map (\<lambda>i. RETRY_BACKOFF_FACTOR * 2 ^ i) [0..<MAX_RETRIES],
       tr_net = map (\<lambda>i. PUT url i (deploy_at w url i)) [0..<MAX_RETRIES]\<rparr>"
    unfolding upload_with_streaming_def
    using upload_loop_exhausted [of MAX_RETRIES w url 0 file_size]
    by simp
  show "tr_attempts (upload_with_streaming w url file_size) = MAX_RETRIES"
    and "tr_result (upload_with_streaming w url file_size) = False"
    and "tr_sleeps (upload_with_streaming w url file_size) =
        map (\<lambda>i. RETRY_BACKOFF_FACTOR * 2 ^ i) [0..<MAX_RETRIES]"
    by (simp_all add: eq)
qed

text \<open>
  The two scenarios of the specification: 503 twice and then 201 gives three attempts and
  success, after sleeps of 1 s and 2 s; 500 on every attempt gives three attempts and
  failure.
\<close>

theorem C2_retry_attempts_witness:
  "((2::nat) < MAX_RETRIES \<and> \<not> put_ok (answer w_busy_twice ''u'' 0) \<and>
    \<not> put_ok (answer w_busy_twice ''u'' 1) \<and> put_ok (answer w_busy_twice ''u'' 2)) \<and>
   tr_attempts (upload_with_streaming w_busy_twice ''u'' 5) = 3 \<and>
   tr_result (upload_with_streaming w_busy_twice ''u'' 5) = True \<and>
   tr_sleeps (upload_with_streaming w_busy_twice ''u'' 5) = [1, 2] \<and>
   (\<not> put_ok (answer w_down ''u'' 0) \<and> \<not> put_ok (answer w_down ''u'' 1) \<and>
    \<not> put_ok (answer w_down ''u'' 2)) \<and>
   tr_attempts (upload_with_streaming w_down ''u'' 5) = 3 \<and>
   tr_result (upload_with_streaming w_down ''u'' 5) = False \<and>
   tr_sleeps (upload_with_streaming w_down ''u'' 5) = [1, 2, 4]"
proof -
  have a: "\<not> put_ok (answer w_busy_twice ''u'' 0)" "\<not> put_ok (answer w_busy_twice ''u'' 1)"
    "put_ok (answer w_busy_twice ''u'' 2)"
    by (simp_all add: answer_def w_busy_twice_def put_ok_def)
  have b: "\<not> put_ok (answer w_down ''u'' i)" for i
    by (simp add: answer_def w_down_def put_ok_def)
  have a': "\<forall>i<2. \<not> put_ok (answer w_busy_twice ''u'' i)"
    using a by (auto simp: less_Suc_eq numeral_2_eq_2)
  have m: "(2::nat) < MAX_RETRIES" by (simp add: MAX_RETRIES_def)
  have v: "validate_upload (w_head w_busy_twice ''u'') 5"
    by (simp add: validate_upload_def w_busy_twice_def)
  have u1: "[0..<2] = [0, Suc 0]" by (simp add: upt_rec)
  have u2: "[0..<MAX_RETRIES] = [0, Suc 0, 2]" by (simp add: upt_rec MAX_RETRIES_def)
  show ?thesis
    using C2_retry_attempts [of 2 w_busy_twice "''u''" 5] C2_retry_attempts [of 0 w_down "''u''" 5]
      a a' b m v
    by (simp add: u1 u2 RETRY_BACKOFF_FACTOR_def) (simp add: MAX_RETRIES_def)
qed

section \<open>Properties of the validation\<close>

text \<open>
  Claim C8, as stated, fails in its second half: \<^verbatim>\<open>_validate_upload\<close> returns a Boolean,
  and a server that reports no size gets the same \<^verbatim>\<open>True\<close> as a server whose size
  matches, so the caller cannot tell the weaker validation from the full one.
\<close>

theorem C8_partial_not_distinguished:
  "validate_upload (HeadResponse 200 NoContentLength) 5 =
   validate_upload (HeadResponse 200 (ContentLength 5)) 5"
  by (simp add: validate_upload_def)

text \<open>
  Claim C8, amended: whenever the server reports a size that differs from the local size,
  the validation fails; when the server answers 200 and reports no size, the validation
  passes on the existence of the file alone and returns the same \<^verbatim>\<open>True\<close> as for a
  matching size.
\<close>

theorem C8_validation:
  "(server_file_size \<noteq> local_file_size \<longrightarrow>
      validate_upload (HeadResponse status_code (ContentLength server_file_size)) local_file_size
        = False) \<and>
   validate_upload (HeadResponse 200 (ContentLength local_file_size)) local_file_size = True \<and>
   validate_upload (HeadResponse 200 NoContentLength) local_file_size = True"
  by (simp add: validate_upload_def)

text \<open>A local file of 5 bytes against a server that reports 4, 5 or no size.\<close>

theorem C8_validation_witness:
  "(4::int) \<noteq> 5 \<and>
   validate_upload (HeadResponse 200 (ContentLength 4)) 5 = False \<and>
   validate_upload (HeadResponse 200 (ContentLength 5)) 5 = True \<and>
   validate_upload (HeadResponse 200 NoContentLength) 5 = True"
  using C8_validation [of 4 5 200] by simp

section \<open>Properties of the directory upload\<close>

lemma collect_files_empty:
  "(\<forall>item \<in> set items. \<not> is_file w (fst item)) \<Longrightarrow> collect_files w items target_prefix = []"
  by (auto simp: collect_files_def filter_empty_conv)

text \<open>
  Claim C9: when the directory holds no file (it is empty, or holds only directories),
  \<^verbatim>\<open>upload_directory\<close> returns \<^verbatim>\<open>True\<close> and has made no upload: no file was handed to
  \<^verbatim>\<open>upload_file\<close>, so no request was sent.
\<close>

theorem C9_empty_directory:
  "(\<forall>item \<in> set items. \<not> is_file w (fst item)) \<Longrightarrow>
   upload_directory u w (Some items) target_prefix =
     Inr \<lparr>dr_returned = True, dr_log = [], dr_uploads = []\<rparr>"
  by (simp add: upload_directory_def collect_files_empty)

text \<open>A directory that holds only a subdirectory, and an empty directory.\<close>

theorem C9_empty_directory_witness:
  "\<not> is_file w_down ''d/sub'' \<and>
   upload_directory ex_uploader w_down (Some [(''d/sub'', ''sub'')]) None =
     Inr \<lparr>dr_returned = True, dr_log = [], dr_uploads = []\<rparr> \<and>
   upload_directory ex_uploader w_down (Some []) None =
     Inr \<lparr>dr_returned = True, dr_log = [], dr_uploads = []\<rparr>"
proof -
  have d: "\<not> is_file w_down ''d/sub''"
    by (simp add: is_file_def w_down_def mixed_fs_def)
  show ?thesis
    using C9_empty_directory [of "[(''d/sub'', ''sub'')]" w_down ex_uploader None]
      C9_empty_directory [of "[]" w_down ex_uploader None] d
    by simp
qed

lemma mset_upload_each:
  "mset xs = mset ys \<Longrightarrow> mset (upload_each u w xs) = mset (upload_each u w ys)"
  unfolding upload_each_def mset_map by simp

lemma mset_uploads_of:
  "mset xs = mset ys \<Longrightarrow> mset (uploads_of u w xs) = mset (uploads_of u w ys)"
  unfolding uploads_of_def mset_map by simp

lemma upload_each_append:
  "upload_each u w (xs @ ys) = upload_each u w xs @ upload_each u w ys"
  by (simp add: upload_each_def)

lemma uploads_of_append:
  "uploads_of u w (xs @ ys) = uploads_of u w xs @ uploads_of u w ys"
  by (simp add: uploads_of_def)

lemma mset_split_sorted:
  "mset (filter (\<lambda>x. \<not> P x) (sort_key f xs) @ filter P (sort_key f xs)) = mset xs"
proof -
  have "mset (filter (\<lambda>x. \<not> P x) (sort_key f xs) @ filter P (sort_key f xs)) =
        filter_mset P (mset (sort_key f xs)) + filter_mset (\<lambda>x. \<not> P x) (mset (sort_key f xs))"
    by simp
  also have "\<dots> = mset (sort_key f xs)"
    by (rule multiset_partition [symmetric])
  finally show ?thesis by simp
qed

lemma ex_files: "collect_files w_mixed ex_listing None =
   [(''d/sub/big.bin'', ''sub/big.bin''), (''d/a.bin'', ''a.bin'')]"
  by (simp add: collect_files_def ex_listing_def w_mixed_def mixed_fs_def is_file_def)

lemma ex_up_a: "fu_result (upload_file ex_uploader w_mixed ''d/a.bin'' (Some ''a.bin'')) = True"
  apply (simp add: upload_file_def)
  apply (simp add: w_mixed_def mixed_fs_def)
  apply (simp add: target_url_def ex_uploader_def JFrogUploader_def lstrip_def rstrip_def)
  apply (simp add: upload_with_streaming_def MAX_RETRIES_def numeral_3_eq_3 endswith_def
      validate_upload_def)
  done

lemma ex_up_big:
  "fu_result (upload_file ex_uploader w_mixed ''d/sub/big.bin'' (Some ''sub/big.bin'')) = False"
  apply (simp add: upload_file_def)
  apply (simp add: w_mixed_def mixed_fs_def)
  apply (simp add: target_url_def ex_uploader_def JFrogUploader_def lstrip_def rstrip_def)
  apply (simp add: upload_with_streaming_def MAX_RETRIES_def numeral_3_eq_3 endswith_def
      validate_upload_def)
  done

lemma ex_run:
  "upload_directory ex_uploader w_mixed (Some ex_listing) None =
     Inr \<lparr>dr_returned = True,
          dr_log = upload_each ex_uploader w_mixed [(''d/a.bin'', ''a.bin'')] @
                   upload_each ex_uploader w_mixed [(''d/sub/big.bin'', ''sub/big.bin'')],
          dr_uploads = uploads_of ex_uploader w_mixed [(''d/a.bin'', ''a.bin'')] @
                       uploads_of ex_uploader w_mixed [(''d/sub/big.bin'', ''sub/big.bin'')]\<rparr>"
  apply (simp add: upload_directory_def ex_files Let_def)
  apply (simp add: w_mixed_def mixed_fs_def getsize_def ex_uploader_def JFrogUploader_def
      DEFAULT_LARGE_FILE_THRESHOLD_def DEFAULT_CONCURRENT_UPLOADS_def)
  done

text \<open>
  Claim C4, as stated, fails in its second half: \<^verbatim>\<open>upload_directory\<close> returns the single
  Boolean \<^verbatim>\<open>True\<close>, also when an upload failed; which file succeeded and which failed
  is written to the log only.
\<close>

theorem C4_no_outcome_list:
  "returned (upload_directory ex_uploader w_mixed (Some ex_listing) None) = Inr True \<and>
   map_sum id dr_log (upload_directory ex_uploader w_mixed (Some ex_listing) None) =
     Inr [(''d/a.bin'', ''a.bin'', True), (''d/sub/big.bin'', ''sub/big.bin'', False)]"
  by (simp add: ex_run returned_def upload_each_def ex_up_a ex_up_big)

lemma upload_directory_run:
  assumes workers: "0 < max_workers u"
    and perm: "\<forall>xs. mset (w_as_completed w xs) = mset xs"
  shows "\<exists>run. upload_directory u w (Some items) target_prefix = Inr run \<and>
           dr_returned run = True \<and>
           mset (dr_log run) = mset (upload_each u w (collect_files w items target_prefix)) \<and>
           mset (dr_uploads run) = mset (uploads_of u w (collect_files w items target_prefix)) \<and>
           length (dr_log run) = length (collect_files w items target_prefix)"
proof (cases "collect_files w items target_prefix = []")
  case True
  then show ?thesis
    by (simp add: upload_directory_def upload_each_def uploads_of_def)
next
  case False
  define files where "files = sort_key (\<lambda>x. getsize w (fst x)) (collect_files w items target_prefix)"
  define P where "P = (\<lambda>x::string \<times> string. getsize w (fst x) \<ge> large_threshold u)"
  define large_files where "large_files = filter P files"
  define normal_files where "normal_files = filter (\<lambda>x. \<not> P x) files"
  define run where "run = \<lparr>dr_returned = True,
      dr_log = upload_each u w (w_as_completed w normal_files) @ upload_each u w large_files,
      dr_uploads = uploads_of u w normal_files @ uploads_of u w large_files\<rparr>"
  have P1: "(\<lambda>(file_path, target_path). getsize w file_path \<ge> large_threshold u) = P"
    by (auto simp: P_def)
  have P2: "(\<lambda>(file_path, target_path). \<not> getsize w file_path \<ge> large_threshold u) = (\<lambda>x. \<not> P x)"
    by (auto simp: P_def)
  have res: "upload_directory u w (Some items) target_prefix = Inr run"
    using False workers
    unfolding upload_directory_def run_def normal_files_def large_files_def files_def Let_def P1 P2
    by simp
  have all: "mset (normal_files @ large_files) = mset (collect_files w items target_prefix)"
    unfolding normal_files_def large_files_def files_def by (rule mset_split_sorted)
  have all': "mset (w_as_completed w normal_files @ large_files) =
      mset (collect_files w items target_prefix)"
    using all perm by simp
  have log: "mset (dr_log run) = mset (upload_each u w (collect_files w items target_prefix))"
    unfolding run_def using mset_upload_each [OF all', of u w]
    by (simp add: upload_each_append)
  have ups: "mset (dr_uploads run) = mset (uploads_of u w (collect_files w items target_prefix))"
    unfolding run_def using mset_uploads_of [OF all, of u w]
    by (simp add: uploads_of_append)
  have len: "length (dr_log run) = length (collect_files w items target_prefix)"
    using arg_cong [OF log, of size] by (simp add: upload_each_def)
  show ?thesis
    using res log ups len by (simp add: run_def)
qed

lemma upload_each_collected:
  "upload_each u w (collect_files w items target_prefix) =
   map (\<lambda>(item, rel_path).
          let target_path = (case target_prefix of
                               None \<Rightarrow> rel_path
                             | Some prefix \<Rightarrow>
                                 if prefix = [] then rel_path else prefix @ ''/'' @ rel_path)
          in (item, target_path, fu_result (upload_file u w item (Some target_path))))
     (filter (\<lambda>(item, rel_path). is_file w item) items)"
  by (simp add: upload_each_def collect_files_def Let_def comp_def case_prod_unfold)

lemma uploads_of_collected:
  "uploads_of u w (collect_files w items target_prefix) =
   map (\<lambda>(item, rel_path).
          let target_path = (case target_prefix of
                               None \<Rightarrow> rel_path
                             | Some prefix \<Rightarrow>
                                 if prefix = [] then rel_path else prefix @ ''/'' @ rel_path)
          in (item, upload_file u w item (Some target_path)))
     (filter (\<lambda>(item, rel_path). is_file w item) items)"
  by (simp add: uploads_of_def collect_files_def Let_def comp_def case_prod_unfold)

lemma length_collected:
  "length (collect_files w items target_prefix) =
   length (filter (\<lambda>(item, rel_path). is_file w item) items)"
  by (simp add: collect_files_def)

text \<open>
  Claim C4, amended: with a positive number of workers, \<^verbatim>\<open>upload_directory\<close> hands every
  item of the listing that is a file to \<^verbatim>\<open>upload_file\<close> exactly once, with its target
  path (the relative path, below the prefix when one is given), whether or not other files
  fail, and itself logs exactly one success or failure record per such file, carrying that
  file's outcome; it returns the Boolean \<^verbatim>\<open>True\<close> whatever the outcomes. (The futures
  of the pool may complete in any order, so the records are compared as multisets.)
\<close>

theorem C4_every_file_logged:
  assumes workers: "0 < max_workers u"
    and perm: "\<forall>xs. mset (w_as_completed w xs) = mset xs"
  shows "\<exists>run. upload_directory u w (Some items) target_prefix = Inr run \<and>
           dr_returned run = True \<and>
           mset (dr_log run) =
             mset (map (\<lambda>(item, rel_path).
                          let target_path =
                                (case target_prefix of
                                   None \<Rightarrow> rel_path
                                 | Some prefix \<Rightarrow>
                                     if prefix = [] then rel_path else prefix @ ''/'' @ rel_path)
                          in (item, target_path,
                              fu_result (upload_file u w item (Some target_path))))
                     (filter (\<lambda>(item, rel_path). is_file w item) items)) \<and>
           mset (dr_uploads run) =
             mset (map (\<lambda>(item, rel_path).
                          let target_path =
                                (case target_prefix of
                                   None \<Rightarrow> rel_path
                                 | Some prefix \<Rightarrow>
                                     if prefix = [] then rel_path else prefix @ ''/'' @ rel_path)
                          in (item, upload_file u w item (Some target_path)))
                     (filter (\<lambda>(item, rel_path). is_file w item) items)) \<and>
           length (dr_log run) = length (filter (\<lambda>(item, rel_path). is_file w item) items)"
  using upload_directory_run [OF workers perm, of items target_prefix]
  unfolding upload_each_collected uploads_of_collected length_collected .

text \<open>
  Three workers, a pool whose futures complete in reverse order, the small file
  uploaded and the large file rejected: both are logged, each with its outcome.
\<close>

theorem C4_every_file_logged_witness:
  "0 < max_workers ex_uploader \<and> (\<forall>xs. mset (w_as_completed w_mixed xs) = mset xs) \<and>
   filter (\<lambda>(item, rel_path). is_file w_mixed item) ex_listing =
     [(''d/sub/big.bin'', ''sub/big.bin''), (''d/a.bin'', ''a.bin'')] \<and>
   (\<exists>run. upload_directory ex_uploader w_mixed (Some ex_listing) None = Inr run \<and>
      dr_returned run = True \<and>
      mset (dr_log run) =
        {#(''d/sub/big.bin'', ''sub/big.bin'', False), (''d/a.bin'', ''a.bin'', True)#} \<and>
      length (dr_log run) = 2)"
proof -
  have w: "0 < max_workers ex_uploader"
    by (simp add: ex_uploader_def JFrogUploader_def DEFAULT_CONCURRENT_UPLOADS_def)
  have p: "\<forall>xs. mset (w_as_completed w_mixed xs) = mset xs"
    by (simp add: w_mixed_def)
  have f: "filter (\<lambda>(item, rel_path). is_file w_mixed item) ex_listing =
     [(''d/sub/big.bin'', ''sub/big.bin''), (''d/a.bin'', ''a.bin'')]"
    by (simp add: ex_listing_def w_mixed_def mixed_fs_def is_file_def)
  show ?thesis
    using C4_every_file_logged [OF w p, of ex_listing None] w p f
    by (auto simp: ex_up_a ex_up_big)
qed

section \<open>Properties of the archive builder\<close>

subsection \<open>Paths ending in .zip\<close>

lemma endswith_iff: "endswith s p \<longleftrightarrow> (\<exists>pre. s = pre @ p)"
proof
  assume "endswith s p"
  then have "s = take (length s - length p) s @ p"
    by (metis append_take_drop_id endswith_def)
  then show "\<exists>pre. s = pre @ p" ..
next
  assume "\<exists>pre. s = pre @ p"
  then show "endswith s p" by (auto simp: endswith_def)
qed

lemma is_zip_path_append: "is_zip_path r \<Longrightarrow> is_zip_path (pre @ r)"
  unfolding is_zip_path_def endswith_iff lower_def
  by (metis append.assoc map_append)

lemma relpath_suffix: "\<exists>pre. file_path = pre @ relpath file_path source_folder"
proof -
  have "\<exists>pre. file_path = pre @ drop n file_path" for n
    by (rule exI [of _ "take n file_path"]) simp
  moreover have "\<exists>pre. file_path = pre @ file_path"
    by (rule exI [of _ "[]"]) simp
  ultimately show ?thesis
    by (simp add: relpath_def Let_def)
qed

lemma lower_char_slash: "lower_char (CHR ''/'') = CHR ''/''"
  by (simp add: lower_char_def)

lemma to_zip_name_is_zip:
  assumes "is_zip_path (to_zip_name r)"
  shows "is_zip_path r"
proof -
  define g where "g = (\<lambda>c. if c = CHR 0x5C then CHR ''/'' else c)"
  define f where "f = (\<lambda>c. lower_char (g c))"
  have "lower (to_zip_name r) = map f r"
    by (simp add: lower_def to_zip_name_def f_def g_def)
  with assms obtain pre where "map f r = pre @ ''.zip''"
    by (auto simp: is_zip_path_def endswith_iff)
  then obtain a b where r: "r = a @ b" and b: "map f b = ''.zip''"
    by (auto simp: map_eq_append_conv)
  have "f c = lower_char c" if "c \<in> set b" for c
  proof (cases "c = CHR 0x5C")
    case True
    then have "f c = CHR ''/''" by (simp add: f_def g_def lower_char_slash)
    moreover have "f c \<in> set (map f b)" using that by simp
    ultimately show ?thesis unfolding b by simp
  next
    case False
    then show ?thesis by (simp add: f_def g_def)
  qed
  then have "map lower_char b = ''.zip''"
    using b by (metis map_cong)
  then have "lower r = map lower_char a @ ''.zip''"
    by (simp add: r lower_def)
  then show ?thesis
    unfolding is_zip_path_def endswith_iff by blast
qed

lemma zip_name_of_relpath:
  "is_zip_path (to_zip_name (relpath file_path source_folder)) \<Longrightarrow> is_zip_path file_path"
  using relpath_suffix [of file_path source_folder] to_zip_name_is_zip is_zip_path_append
  by metis

lemma relpath_is_zip: "is_zip_path (relpath file_path source_folder) \<Longrightarrow> is_zip_path file_path"
  using relpath_suffix [of file_path source_folder] is_zip_path_append by metis

lemma is_zip_path_suffixed: "is_zip_path (p @ ''.zip'')"
proof -
  have "lower ''.zip'' = ''.zip''" by code_simp
  then have "lower (p @ ''.zip'') = lower p @ ''.zip''"
    by (simp add: lower_def)
  then show ?thesis
    unfolding is_zip_path_def endswith_iff by blast
qed

lemma adjusted_output_is_zip: "is_zip_path (adjusted_output output_is_dir source_folder output_zip)"
proof -
  have "is_zip_path (os_path_join output_zip (basename source_folder @ ''.zip''))"
    using is_zip_path_suffixed [of "output_zip @ basename source_folder"]
      is_zip_path_suffixed [of "output_zip @ ''/'' @ basename source_folder"]
    by (simp add: os_path_join_def)
  moreover have "is_zip_path (output_zip @ ''.zip'')"
    by (rule is_zip_path_suffixed)
  moreover have "endswith (lower output_zip) ''.zip'' \<Longrightarrow> is_zip_path output_zip"
    by (simp add: is_zip_path_def)
  ultimately show ?thesis
    by (simp add: adjusted_output_def Let_def)
qed

subsection \<open>The scan\<close>

lemma scan_dir_filter:
  "scan_dir zw source_folder dirpath files =
   map (\<lambda>file. (os_path_join dirpath file, relpath (os_path_join dirpath file) source_folder,
                 the (zw_getsize zw (os_path_join dirpath file))))
     (filter (\<lambda>file. \<not> is_zip_path (os_path_join dirpath file) \<and>
                       zw_getsize zw (os_path_join dirpath file) \<noteq> None) files)"
  by (induction files) (auto simp: Let_def split: option.splits)

lemma scan_files_no_zip: "fi \<in> set (scan_files zw source_folder) \<Longrightarrow> \<not> is_zip_path (fst fi)"
  by (auto simp: scan_files_def scan_dir_filter)

lemma scan_files_rel:
  "fi \<in> set (scan_files zw source_folder) \<Longrightarrow> fst (snd fi) = relpath (fst fi) source_folder"
  by (auto simp: scan_files_def scan_dir_filter)

lemma scan_walk_paths:
  "map fst (concat (map (\<lambda>(dirpath, files). scan_dir zw source_folder dirpath (sort files)) walk)) =
   filter (\<lambda>p. \<not> is_zip_path p \<and> zw_getsize zw p \<noteq> None)
     (concat (map (\<lambda>(dirpath, files). map (os_path_join dirpath) (sort files)) walk))"
proof (induction walk)
  case Nil
  show ?case by simp
next
  case (Cons d walk)
  obtain dirpath files where d: "d = (dirpath, files)" by (cases d)
  have "map fst (scan_dir zw source_folder dirpath (sort files)) =
        filter (\<lambda>p. \<not> is_zip_path p \<and> zw_getsize zw p \<noteq> None)
          (map (os_path_join dirpath) (sort files))"
    unfolding scan_dir_filter by (simp add: filter_map comp_def)
  with Cons show ?case by (simp add: d)
qed

lemma scan_files_paths:
  "map fst (scan_files zw source_folder) =
   filter (\<lambda>p. \<not> is_zip_path p \<and> zw_getsize zw p \<noteq> None)
     (concat (map (\<lambda>(dirpath, files). map (os_path_join dirpath) (sort files)) (zw_walk zw)))"
  unfolding scan_files_def by (rule scan_walk_paths)

subsection \<open>The attempts on one file\<close>

lemma psf_loop_step:
  assumes "attempt_once zw fi attempt = (r, entries, sl)"
    and "acc1 = acc\<lparr>psf_attempts := psf_attempts acc + 1,
      psf_sleeps := psf_sleeps acc @ sl, psf_entries := psf_entries acc @ entries\<rparr>"
  shows "psf_loop zw fi (Suc n) attempt acc =
     (case r of
        None \<Rightarrow> acc1
      | Some x \<Rightarrow>
          if x = IOError \<and> attempt < max_retries - 1
          then psf_loop zw fi n (attempt + 1) (acc1\<lparr>psf_sleeps := psf_sleeps acc1 @ [retry_delay]\<rparr>)
          else acc1\<lparr>psf_raised := Some x\<rparr>)"
  using assms by (auto simp: Let_def split: option.split)




lemma attempt_once_entries:
  "attempt_once zw fi attempt = (r, entries, sl) \<Longrightarrow> set (map fst entries) \<subseteq> {fst (snd fi)}"
  by (cases fi) (auto simp: attempt_once_def Let_def split: option.splits if_splits prod.splits)


lemma psf_loop_entries:
  "set (map fst (psf_entries (psf_loop zw fi n attempt acc))) \<subseteq>
   set (map fst (psf_entries acc)) \<union> {fst (snd fi)}"
proof (induction n arbitrary: attempt acc)
  case 0
  show ?case by auto
next
  case (Suc n)
  obtain r entries sl where a: "attempt_once zw fi attempt = (r, entries, sl)"
    by (cases "attempt_once zw fi attempt") auto
  note s = attempt_once_entries [OF a]
  define acc1 where "acc1 = acc\<lparr>psf_attempts := psf_attempts acc + 1,
      psf_sleeps := psf_sleeps acc @ sl, psf_entries := psf_entries acc @ entries\<rparr>"
  have step: "set (map fst (psf_entries (psf_loop zw fi n (attempt + 1)
        (acc1\<lparr>psf_sleeps := psf_sleeps acc1 @ [retry_delay]\<rparr>)))) \<subseteq>
        set (map fst (psf_entries acc)) \<union> {fst (snd fi)}"
    using Suc.IH [of "attempt + 1" "acc1\<lparr>psf_sleeps := psf_sleeps acc1 @ [retry_delay]\<rparr>"] s
    by (auto simp: acc1_def)
  have base: "set (map fst (psf_entries acc1)) \<subseteq> set (map fst (psf_entries acc)) \<union> {fst (snd fi)}"
    using s by (auto simp: acc1_def)
  show ?case
    unfolding psf_loop_step [OF a acc1_def]
    using step base by (auto split: option.split)
qed

lemma process_single_file_loop:
  "\<exists>c. process_single_file zw am fi =
     psf_loop zw fi max_retries 0
       \<lparr>psf_raised = None, psf_attempts = 0, psf_sleeps = [], psf_entries = [],
        psf_chunk_size = c\<rparr>"
  by (cases fi) (auto simp: process_single_file_def Let_def)



lemma process_single_file_entries:
  "set (map fst (psf_entries (process_single_file zw am fi))) \<subseteq> {fst (snd fi)}"
proof -
  obtain c where "process_single_file zw am fi = psf_loop zw fi max_retries 0
       \<lparr>psf_raised = None, psf_attempts = 0, psf_sleeps = [], psf_entries = [],
        psf_chunk_size = c\<rparr>"
    using process_single_file_loop by blast
  then show ?thesis
    using psf_loop_entries [of zw fi max_retries 0
        "\<lparr>psf_raised = None, psf_attempts = 0, psf_sleeps = [], psf_entries = [],
          psf_chunk_size = c\<rparr>"]
    by simp
qed

lemma process_single_file_exhausted:
  assumes "\<forall>i<max_retries. fst (attempt_once zw fi i) = Some IOError"
  shows "psf_raised (process_single_file zw am fi) = Some IOError \<and>
         psf_attempts (process_single_file zw am fi) = max_retries"
proof -
  have a: "fst (attempt_once zw fi 0) = Some IOError" "fst (attempt_once zw fi (Suc 0)) = Some IOError"
    "fst (attempt_once zw fi (Suc (Suc 0))) = Some IOError"
    using assms by (simp_all add: max_retries_def)
  obtain e0 s0 where a0: "attempt_once zw fi 0 = (Some IOError, e0, s0)"
    using a(1) by (cases "attempt_once zw fi 0") auto
  obtain e1 s1 where a1: "attempt_once zw fi (Suc 0) = (Some IOError, e1, s1)"
    using a(2) by (cases "attempt_once zw fi (Suc 0)") auto
  obtain e2 s2 where a2: "attempt_once zw fi (Suc (Suc 0)) = (Some IOError, e2, s2)"
    using a(3) by (cases "attempt_once zw fi (Suc (Suc 0))") auto
  obtain c where eq: "process_single_file zw am fi = psf_loop zw fi max_retries 0
       \<lparr>psf_raised = None, psf_attempts = 0, psf_sleeps = [], psf_entries = [],
        psf_chunk_size = c\<rparr>"
    using process_single_file_loop by blast
  show ?thesis
    unfolding eq by (simp add: max_retries_def numeral_3_eq_3 Let_def a0 a1 a2)
qed

lemma process_single_file_first_try:
  assumes "fst (attempt_once zw fi 0) = None"
  shows "psf_raised (process_single_file zw am fi) = None \<and>
         psf_attempts (process_single_file zw am fi) = 1 \<and>
         map fst (psf_entries (process_single_file zw am fi)) = [fst (snd fi)]"
proof -
  obtain e0 s0 where a0: "attempt_once zw fi 0 = (None, e0, s0)"
    using assms by (cases "attempt_once zw fi 0") auto
  have "map fst e0 = [fst (snd fi)]"
    using a0
    by (cases fi) (auto simp: attempt_once_def Let_def split: option.splits if_splits prod.splits)
  moreover obtain c where eq: "process_single_file zw am fi = psf_loop zw fi max_retries 0
       \<lparr>psf_raised = None, psf_attempts = 0, psf_sleeps = [], psf_entries = [],
        psf_chunk_size = c\<rparr>"
    using process_single_file_loop by blast
  ultimately show ?thesis
    unfolding eq by (simp add: max_retries_def numeral_3_eq_3 Let_def a0)
qed









subsection \<open>The container and its validation\<close>

text \<open>The loop over the files, field by field.\<close>

lemma process_all_archive:
  "bs_archive (process_all zw am fs st) =
   bs_archive st @ concat (map (\<lambda>fi. psf_entries (process_single_file zw am fi)) fs)"
  by (induction fs arbitrary: st) (simp_all add: Let_def split: option.split)

lemma process_all_processed:
  "bs_processed (process_all zw am fs st) = bs_processed st @ fs"
  by (induction fs arbitrary: st) (simp_all add: Let_def split: option.split)


lemma zip_archive_eq:
  "zr_archive (zip_with_builtin zw am source_folder cs v) =
   concat (map (\<lambda>fi. psf_entries (process_single_file zw am fi)) (scan_files zw source_folder))"
  by (simp add: zip_with_builtin_def Let_def process_all_archive)

lemma zip_processed_eq:
  "zr_processed (zip_with_builtin zw am source_folder cs v) = scan_files zw source_folder"
  by (simp add: zip_with_builtin_def Let_def process_all_processed)



lemma zip_archive_origin:
  assumes "e \<in> set (zr_archive (zip_with_builtin zw am source_folder cs v))"
  shows "\<exists>fi \<in> set (scan_files zw source_folder). fst e = fst (snd fi)"
proof -
  from assms obtain fi where fi: "fi \<in> set (scan_files zw source_folder)"
    and e: "e \<in> set (psf_entries (process_single_file zw am fi))"
    unfolding zip_archive_eq by auto
  from e have "fst e \<in> set (map fst (psf_entries (process_single_file zw am fi)))"
    by simp
  with process_single_file_entries [of zw am fi] have "fst e = fst (snd fi)"
    by blast
  with fi show ?thesis by blast
qed

lemma entries_first_try:
  "(\<forall>fi \<in> set fs. fst (attempt_once zw fi 0) = None) \<Longrightarrow>
   map fst (concat (map (\<lambda>fi. psf_entries (process_single_file zw am fi)) fs)) =
   map (\<lambda>fi. fst (snd fi)) fs"
  by (induction fs) (simp_all add: process_single_file_first_try)

lemma validate_files_missing:
  "validate_files zw zf files m mm = Checked missing mism \<Longrightarrow>
   missing = m @ map (\<lambda>(file_path, rel). to_zip_name rel)
     (filter (\<lambda>(file_path, rel). \<not> is_zip_path file_path \<and> zf (to_zip_name rel) = None) files)"
proof (induction files arbitrary: m mm)
  case Nil
  then show ?case by simp
next
  case (Cons f files)
  obtain file_path rel where f: "f = (file_path, rel)" by (cases f)
  show ?case
  proof (cases "is_zip_path file_path")
    case True
    with Cons.prems Cons.IH [of m mm] show ?thesis by (simp add: f)
  next
    case False
    show ?thesis
    proof (cases "zw_getsize zw file_path")
      case None
      with False Cons.prems show ?thesis by (simp add: f)
    next
      case (Some source_size)
      show ?thesis
      proof (cases "zf (to_zip_name rel)")
        case None
        with False Some Cons.prems Cons.IH [of "m @ [to_zip_name rel]" mm] show ?thesis
          by (simp add: f)
      next
        case (Some zip_size)
        with False \<open>zw_getsize zw file_path = Some source_size\<close> Cons.prems
          Cons.IH [of m mm] Cons.IH [of m "mm @ [(to_zip_name rel, source_size, zip_size)]"]
        show ?thesis
          by (simp add: f split: if_splits)
      qed
    qed
  qed
qed

lemma walk_paths_rel:
  "(file_path, rel) \<in> set (walk_paths source_folder walk) \<Longrightarrow> rel = relpath file_path source_folder"
  by (auto simp: walk_paths_def)

lemma validation_walk_missing:
  assumes "validation_walk zw source_folder archive = Checked missing mism"
  shows "missing = map (\<lambda>(file_path, rel). to_zip_name rel)
     (filter (\<lambda>(file_path, rel). \<not> is_zip_path file_path \<and>
                map_of (rev archive) (to_zip_name rel) = None)
        (walk_paths source_folder (zw_walk_validation zw)))"
  using validate_files_missing [OF assms [unfolded validation_walk_def]] by simp

lemma validation_walk_no_zip:
  assumes "validation_walk zw source_folder archive = Checked missing mism"
    and "p \<in> set missing"
  shows "\<not> is_zip_path p"
proof -
  from assms obtain file_path rel where
    in_walk: "(file_path, rel) \<in> set (walk_paths source_folder (zw_walk_validation zw))"
    and nz: "\<not> is_zip_path file_path" and p: "p = to_zip_name rel"
    unfolding validation_walk_missing [OF assms(1)] by auto
  have "rel = relpath file_path source_folder"
    using in_walk by (rule walk_paths_rel)
  with nz p show ?thesis
    using zip_name_of_relpath by blast
qed

lemma nx_add_files_order:
  "nx_add_files fs acc = Inr entries \<Longrightarrow>
   entries = acc @ map (\<lambda>f. (nx_arcname f, nx_size f)) fs"
proof (induction fs arbitrary: acc)
  case Nil
  then show ?case by simp
next
  case (Cons f fs)
  from Cons.prems have a: "nx_addable f"
    and r: "nx_add_files fs (acc @ [(nx_arcname f, nx_size f)]) = Inr entries"
    by (auto split: if_splits)
  from Cons.IH [OF r] show ?case by simp
qed

lemma create_zip_archive_order:
  "create_zip_archive (Some items) = Inr entries \<Longrightarrow>
   entries = map (\<lambda>f. (nx_arcname f, nx_size f)) (filter nx_is_file items)"
  using nx_add_files_order [of "filter nx_is_file items" "[]" entries]
  by (simp add: create_zip_archive_def Let_def split: if_splits)


subsection \<open>The concrete source folders, evaluated\<close>

lemma sort_two: "sort [''b.bin'', ''old.ZIP'', ''a.bin''] = [''a.bin'', ''b.bin'', ''old.ZIP'']"
  by code_simp

lemma scan_two: "scan_files zw_two ''/src'' = [(''/src/a.bin'', ''a.bin'', 10), (''/src/b.bin'', ''b.bin'', 5)]"
  by code_simp

lemma scan_unreadable: "scan_files zw_unreadable ''/src'' = scan_files zw_two ''/src''"
  by (simp add: scan_files_def scan_dir_filter zw_unreadable_def)

lemma psf_two_a:
  "process_single_file zw_two 0 (''/src/a.bin'', ''a.bin'', 10) =
     \<lparr>psf_raised = None, psf_attempts = 1, psf_sleeps = [], psf_entries = [(''a.bin'', 10)],
      psf_chunk_size = 8192\<rparr>"
  apply (simp add: process_single_file_def max_retries_def numeral_3_eq_3 get_optimal_chunk_size_def)
  apply (simp add: attempt_once_def zw_two_def)
  done

lemma psf_two_b:
  "process_single_file zw_two 0 (''/src/b.bin'', ''b.bin'', 5) =
     \<lparr>psf_raised = None, psf_attempts = 1, psf_sleeps = [], psf_entries = [(''b.bin'', 5)],
      psf_chunk_size = 8192\<rparr>"
  apply (simp add: process_single_file_def max_retries_def numeral_3_eq_3 get_optimal_chunk_size_def)
  apply (simp add: attempt_once_def zw_two_def)
  done

lemma psf_unreadable_a:
  "process_single_file zw_unreadable 0 (''/src/a.bin'', ''a.bin'', 10) =
     \<lparr>psf_raised = Some IOError, psf_attempts = 3, psf_sleeps = [1, 1], psf_entries = [],
      psf_chunk_size = 8192\<rparr>"
  apply (simp add: process_single_file_def max_retries_def numeral_3_eq_3 get_optimal_chunk_size_def)
  apply (simp add: attempt_once_def zw_unreadable_def zw_two_def retry_delay_def max_retries_def
      Let_def)
  done

lemma psf_unreadable_b:
  "process_single_file zw_unreadable 0 (''/src/b.bin'', ''b.bin'', 5) =
     \<lparr>psf_raised = None, psf_attempts = 1, psf_sleeps = [], psf_entries = [(''b.bin'', 5)],
      psf_chunk_size = 8192\<rparr>"
  apply (simp add: process_single_file_def max_retries_def numeral_3_eq_3 get_optimal_chunk_size_def)
  apply (simp add: attempt_once_def zw_unreadable_def zw_two_def)
  done

lemma attempt_two:
  "fst (attempt_once zw_two (''/src/a.bin'', ''a.bin'', 10) 0) = None"
  "fst (attempt_once zw_two (''/src/b.bin'', ''b.bin'', 5) 0) = None"
  by (simp_all add: attempt_once_def zw_two_def)

lemma attempt_unreadable:
  "fst (attempt_once zw_unreadable (''/src/a.bin'', ''a.bin'', 10) i) = Some IOError"
  by (simp add: attempt_once_def zw_unreadable_def)

lemma validation_unreadable:
  "validation_walk zw_unreadable ''/src'' [(''b.bin'', 5)] = Checked [''a.bin''] []"
  by code_simp










subsection \<open>Failures of single entries\<close>




subsection \<open>The order of the entries\<close>

text \<open>
  Claim C7, as stated, fails: with \<^verbatim>\<open>a.bin\<close> of 10 bytes and \<^verbatim>\<open>b.bin\<close> of 5 bytes in
  one directory, \<^verbatim>\<open>zip_with_builtin\<close> writes \<^verbatim>\<open>a.bin\<close> first, so the sizes in the
  container are not ascending; \<^verbatim>\<open>create_zip_archive\<close> keeps the order of its listing in
  the same way.
\<close>

theorem C7_not_by_size:
  "zr_archive (zip_with_builtin zw_two 0 ''/src'' None False) = [(''a.bin'', 10), (''b.bin'', 5)] \<and>
   \<not> sorted (map snd (zr_archive (zip_with_builtin zw_two 0 ''/src'' None False))) \<and>
   create_zip_archive (Some [\<lparr>nx_arcname = ''a.bin'', nx_is_file = True, nx_size = 10, nx_addable = True\<rparr>,
                             \<lparr>nx_arcname = ''b.bin'', nx_is_file = True, nx_size = 5, nx_addable = True\<rparr>])
     = Inr [(''a.bin'', 10), (''b.bin'', 5)]"
  by (simp add: zip_archive_eq scan_two psf_two_a psf_two_b create_zip_archive_def)

text \<open>
  Claim C7, amended: \<^verbatim>\<open>zip_with_builtin\<close> processes the entries in scan order, that is
  the directories in the order \<^verbatim>\<open>os.walk\<close> yields them and within each directory the
  file names in ascending order, without the paths ending in \<^verbatim>\<open>.zip\<close> and the files
  whose size cannot be read; when every entry is added at its first attempt the container
  holds the entries in exactly that order. \<^verbatim>\<open>create_zip_archive\<close> of the Nexus uploader
  holds the files in the order of its listing. Neither orders the entries by size.
\<close>

theorem C7_scan_order:
  "zr_processed (zip_with_builtin zw am source_folder cs v) = scan_files zw source_folder \<and>
   map fst (scan_files zw source_folder) =
     filter (\<lambda>p. \<not> is_zip_path p \<and> zw_getsize zw p \<noteq> None)
       (concat (map (\<lambda>(dirpath, files). map (os_path_join dirpath) (sort files)) (zw_walk zw))) \<and>
   ((\<forall>fi \<in> set (scan_files zw source_folder). fst (attempt_once zw fi 0) = None) \<longrightarrow>
      map fst (zr_archive (zip_with_builtin zw am source_folder cs v)) =
        map (\<lambda>fi. fst (snd fi)) (scan_files zw source_folder)) \<and>
   (create_zip_archive (Some items) = Inr entries \<longrightarrow>
      entries = map (\<lambda>f. (nx_arcname f, nx_size f)) (filter nx_is_file items))"
proof (intro conjI impI)
  show "zr_processed (zip_with_builtin zw am source_folder cs v) = scan_files zw source_folder"
    by (rule zip_processed_eq)
  show "map fst (scan_files zw source_folder) =
     filter (\<lambda>p. \<not> is_zip_path p \<and> zw_getsize zw p \<noteq> None)
       (concat (map (\<lambda>(dirpath, files). map (os_path_join dirpath) (sort files)) (zw_walk zw)))"
    by (rule scan_files_paths)
next
  assume "\<forall>fi \<in> set (scan_files zw source_folder). fst (attempt_once zw fi 0) = None"
  then show "map fst (zr_archive (zip_with_builtin zw am source_folder cs v)) =
        map (\<lambda>fi. fst (snd fi)) (scan_files zw source_folder)"
    unfolding zip_archive_eq by (rule entries_first_try)
next
  assume "create_zip_archive (Some items) = Inr entries"
  then show "entries = map (\<lambda>f. (nx_arcname f, nx_size f)) (filter nx_is_file items)"
    by (rule create_zip_archive_order)
qed

text \<open>
  The walk lists \<^verbatim>\<open>b.bin\<close>, \<^verbatim>\<open>old.ZIP\<close>, \<^verbatim>\<open>a.bin\<close>; the container holds \<^verbatim>\<open>a.bin\<close> and
  then \<^verbatim>\<open>b.bin\<close>.
\<close>

theorem C7_scan_order_witness:
  "fst (attempt_once zw_two (''/src/a.bin'', ''a.bin'', 10) 0) = None \<and>
   fst (attempt_once zw_two (''/src/b.bin'', ''b.bin'', 5) 0) = None \<and>
   zw_walk zw_two = [(''/src'', [''b.bin'', ''old.ZIP'', ''a.bin''])] \<and>
   zr_processed (zip_with_builtin zw_two 0 ''/src'' None False) =
     [(''/src/a.bin'', ''a.bin'', 10), (''/src/b.bin'', ''b.bin'', 5)] \<and>
   map fst (zr_archive (zip_with_builtin zw_two 0 ''/src'' None False)) = [''a.bin'', ''b.bin''] \<and>
   create_zip_archive (Some [\<lparr>nx_arcname = ''b.bin'', nx_is_file = True, nx_size = 5, nx_addable = True\<rparr>,
                             \<lparr>nx_arcname = ''a.bin'', nx_is_file = True, nx_size = 10, nx_addable = True\<rparr>])
     = Inr [(''b.bin'', 5), (''a.bin'', 10)]"
proof -
  have c: "create_zip_archive (Some [\<lparr>nx_arcname = ''b.bin'', nx_is_file = True, nx_size = 5, nx_addable = True\<rparr>,
                             \<lparr>nx_arcname = ''a.bin'', nx_is_file = True, nx_size = 10, nx_addable = True\<rparr>])
     = Inr [(''b.bin'', 5), (''a.bin'', 10)]"
    by (simp add: create_zip_archive_def)
  show ?thesis
    using C7_scan_order [of zw_two 0 "''/src''" None False
        "[\<lparr>nx_arcname = ''b.bin'', nx_is_file = True, nx_size = 5, nx_addable = True\<rparr>,
          \<lparr>nx_arcname = ''a.bin'', nx_is_file = True, nx_size = 10, nx_addable = True\<rparr>]"
        "[(''b.bin'', 5), (''a.bin'', 10)]"] attempt_two c
    by (simp add: scan_two) (simp add: zw_two_def)
qed

subsection \<open>Archives inside the source folder\<close>

text \<open>
  Claim C10: no scanned file has a path ending in \<^verbatim>\<open>.zip\<close> (in any letter case), every
  entry of the container was made from a scanned file and has no such name, and the
  validation reports as missing exactly the walked files that do not end in \<^verbatim>\<open>.zip\<close>
  and have no entry, so no reported name ends in \<^verbatim>\<open>.zip\<close>; and the output path that
  \<^verbatim>\<open>main\<close> hands to the build always ends in \<^verbatim>\<open>.zip\<close>. So an archive inside the
  source folder is neither added to the container nor reported as missing.
\<close>

theorem C10_zip_files_left_out:
  "(\<forall>fi \<in> set (scan_files zw source_folder). \<not> is_zip_path (fst fi)) \<and>
   (\<forall>e \<in> set (zr_archive (zip_with_builtin zw am source_folder cs v)).
      \<not> is_zip_path (fst e) \<and>
      (\<exists>fi \<in> set (scan_files zw source_folder). fst e = fst (snd fi) \<and> \<not> is_zip_path (fst fi))) \<and>
   (validation_walk zw source_folder archive = Checked missing mism \<longrightarrow>
      (\<forall>p \<in> set missing. \<not> is_zip_path p) \<and>
      missing = map (\<lambda>(file_path, rel). to_zip_name rel)
        (filter (\<lambda>(file_path, rel). \<not> is_zip_path file_path \<and>
                   map_of (rev archive) (to_zip_name rel) = None)
           (walk_paths source_folder (zw_walk_validation zw)))) \<and>
   is_zip_path (adjusted_output output_is_dir source_folder output_zip)"
proof (intro conjI impI ballI)
  show "is_zip_path (adjusted_output output_is_dir source_folder output_zip)"
    by (rule adjusted_output_is_zip)
next
  fix fi assume "fi \<in> set (scan_files zw source_folder)"
  then show "\<not> is_zip_path (fst fi)" by (rule scan_files_no_zip)
next
  fix e assume e: "e \<in> set (zr_archive (zip_with_builtin zw am source_folder cs v))"
  then obtain fi where fi: "fi \<in> set (scan_files zw source_folder)" and n: "fst e = fst (snd fi)"
    using zip_archive_origin by blast
  have nz: "\<not> is_zip_path (fst fi)" using fi by (rule scan_files_no_zip)
  show "\<exists>fi \<in> set (scan_files zw source_folder). fst e = fst (snd fi) \<and> \<not> is_zip_path (fst fi)"
    using fi n nz by blast
  show "\<not> is_zip_path (fst e)"
    using nz relpath_is_zip [of "fst fi" source_folder] scan_files_rel [OF fi] n by auto
next
  assume v: "validation_walk zw source_folder archive = Checked missing mism"
  show "missing = map (\<lambda>(file_path, rel). to_zip_name rel)
        (filter (\<lambda>(file_path, rel). \<not> is_zip_path file_path \<and>
                   map_of (rev archive) (to_zip_name rel) = None)
           (walk_paths source_folder (zw_walk_validation zw)))"
    by (rule validation_walk_missing [OF v])
  fix p assume "p \<in> set missing"
  with v show "\<not> is_zip_path p" by (rule validation_walk_no_zip)
qed

text \<open>
  The source folder holds an older archive \<^verbatim>\<open>old.ZIP\<close> and, when the validation walks
  it, the output \<^verbatim>\<open>out.zip\<close>; \<^verbatim>\<open>a.bin\<close> could not be added. Only \<^verbatim>\<open>a.bin\<close> is
  reported as missing.
\<close>

theorem C10_zip_files_left_out_witness:
  "is_zip_path ''/src/old.ZIP'' \<and> is_zip_path ''/src/out.zip'' \<and>
   zw_walk zw_unreadable = [(''/src'', [''b.bin'', ''old.ZIP'', ''a.bin''])] \<and>
   zw_walk_validation zw_unreadable = [(''/src'', [''b.bin'', ''old.ZIP'', ''a.bin'', ''out.zip''])] \<and>
   map fst (scan_files zw_unreadable ''/src'') = [''/src/a.bin'', ''/src/b.bin''] \<and>
   zr_archive (zip_with_builtin zw_unreadable 0 ''/src'' None True) = [(''b.bin'', 5)] \<and>
   validation_walk zw_unreadable ''/src'' [(''b.bin'', 5)] = Checked [''a.bin''] [] \<and>
   \<not> is_zip_path ''a.bin'' \<and> \<not> is_zip_path ''b.bin'' \<and>
   adjusted_output False ''/src'' ''/src/out'' = ''/src/out.zip''"
proof -
  have o: "adjusted_output False ''/src'' ''/src/out'' = ''/src/out.zip''"
    by code_simp
  have z: "is_zip_path ''/src/old.ZIP''" "is_zip_path ''/src/out.zip''"
    "\<not> is_zip_path ''a.bin''" "\<not> is_zip_path ''b.bin''"
    by code_simp+
  have a: "zr_archive (zip_with_builtin zw_unreadable 0 ''/src'' None True) = [(''b.bin'', 5)]"
    by (simp add: zip_archive_eq scan_unreadable scan_two psf_unreadable_a psf_unreadable_b)
  show ?thesis
    using C10_zip_files_left_out [of zw_unreadable "''/src''" 0 None True "[(''b.bin'', 5)]"
        "[''a.bin'']" "[]"] z a o validation_unreadable
    by (simp add: scan_unreadable scan_two) (simp add: zw_unreadable_def zw_two_def)
qed

end
